theory Spec2Isabelle
  imports Complex_Main "HOL-Library.AList"
begin

section \<open>Scaling data manager: shallow embedding of data_manager_functions.py\<close>

text \<open>
  Python floats (and the entries of flex.double arrays) are modelled as real numbers;
  Python ints as \<open>int\<close>.  Exceptions are values of the type \<open>error\<close>, and a function
  that can raise returns \<open>error + 'a\<close> with \<open>Inl\<close> for the exception.
\<close>

datatype error = ValueError | IndexError | KeyError | ZeroDivisionError | AttributeError
  | UnboundLocalError | TypeError

subsection \<open>select_variables_in_range\<close>

text \<open>
  The loop of \<open>select_variables_in_range\<close> appends one boolean per element of
  \<open>variable_array\<close>, in order.
\<close>

fun select_variables_in_range :: "real list \<Rightarrow> real \<Rightarrow> real \<Rightarrow> bool list" where
  "select_variables_in_range [] lower_limit upper_limit = []"
| "select_variables_in_range (variable # variable_array) lower_limit upper_limit =
     (if lower_limit < variable \<and> variable \<le> upper_limit then True else False)
       # select_variables_in_range variable_array lower_limit upper_limit"

subsection \<open>bin_reflections_absorption_radially\<close>

text \<open>
  \<open>flex.int.set_selected(selection, value)\<close> overwrites the entries at which the
  selection is True.  The index arrays and every selection have one entry per reflection.
\<close>

definition set_selected :: "int list \<Rightarrow> bool list \<Rightarrow> int \<Rightarrow> int list" where
  "set_selected xs sel v = map (\<lambda>(x, s). if s then v else x) (zip xs sel)"

text \<open>
  The two nested loops over the angular and the radial bins, in the order in which the
  source runs them: one \<open>set_selected\<close> per pair \<open>(i, j)\<close>, with the value
  \<open>i * (len(radial_bins) - 1) + j\<close>.
\<close>

definition firstbin_steps ::
  "real list \<Rightarrow> real list \<Rightarrow> real list \<Rightarrow> real list \<Rightarrow> (bool list \<times> int) list" where
  "firstbin_steps angular_values radial_values angular_bins radial_bins =
     concat (map (\<lambda>i.
       let selection1 = select_variables_in_range angular_values
                          (angular_bins ! i) (angular_bins ! (i + 1))
       in map (\<lambda>j.
            let selection2 = select_variables_in_range radial_values
                               (radial_bins ! j) (radial_bins ! (j + 1))
            in (map2 (\<and>) selection1 selection2,
                int ((i * (length radial_bins - 1)) + j)))
          [0 ..< length radial_bins - 1])
       [0 ..< length angular_bins - 1])"

definition secondbin_steps :: "real list \<Rightarrow> real list \<Rightarrow> nat \<Rightarrow> (bool list \<times> int) list" where
  "secondbin_steps z_value z_bins nzbins =
     map (\<lambda>i. (select_variables_in_range z_value (z_bins ! i) (z_bins ! (i + 1)), int i))
       [0 ..< nzbins]"

definition run_steps :: "(bool list \<times> int) list \<Rightarrow> int list \<Rightarrow> int list" where
  "run_steps steps index = fold (\<lambda>(sel, v) ix. set_selected ix sel v) steps index"

definition radial_bins_of :: "int \<times> int \<Rightarrow> real list" where
  "radial_bins_of image_size =
     (let x_center = real_of_int (fst image_size) / 2;
          y_center = real_of_int (snd image_size) / 2;
          radial_divider = max x_center y_center
      in [- 0.0001, radial_divider / 3, 2 * radial_divider / 3,
          (sqrt (real_of_int ((fst image_size)\<^sup>2 + (snd image_size)\<^sup>2)) / 2) + 5])"

definition angular_bins :: "real list" where
  "angular_bins = [- 0.0001, pi / 4, 2 * pi / 4, 3 * pi / 4, pi,
                   5 * pi / 4, 6 * pi / 4, 7 * pi / 4, 2 * pi]"

text \<open>
  The assignment loops.  \<open>radial_values\<close> and \<open>angular_values\<close> are the arrays the
  source computes from the \<open>x_value\<close> and \<open>y_value\<close> columns with flex and numpy
  (square root, arccos); \<open>z_bins\<close> is \<open>self.bin_boundaries['z_value']\<close>, which no code of
  the class assigns and is therefore an input here.  Reading \<open>z_bins[i + 1]\<close> beyond the
  end raises IndexError.
\<close>

definition bin_indices ::
  "int \<times> int \<Rightarrow> real list \<Rightarrow> real list \<Rightarrow> real list \<Rightarrow> real list \<Rightarrow> nat
     \<Rightarrow> error + (int list \<times> int list)" where
  "bin_indices image_size angular_values radial_values z_value z_bins nzbins =
     (let firstbin_index = replicate (length z_value) (- 1);
          secondbin_index = replicate (length z_value) (- 1);
          firstbin_index = run_steps
            (firstbin_steps angular_values radial_values angular_bins (radial_bins_of image_size))
            firstbin_index
      in if list_all (\<lambda>i. i + 1 < length z_bins) [0 ..< nzbins]
         then Inr (firstbin_index,
                   run_steps (secondbin_steps z_value z_bins nzbins) secondbin_index)
         else Inl IndexError)"

record absorption_binning =
  a_bin_index :: "int list"
  n_absorption_bins :: nat
  n_g_absorption :: nat

definition bin_reflections_absorption_radially ::
  "int \<times> int \<Rightarrow> real list \<Rightarrow> real list \<Rightarrow> real list \<Rightarrow> real list \<Rightarrow> nat
     \<Rightarrow> error + absorption_binning" where
  "bin_reflections_absorption_radially image_size angular_values radial_values z_value z_bins nzbins =
     (case bin_indices image_size angular_values radial_values z_value z_bins nzbins of
        Inl e \<Rightarrow> Inl e
      | Inr (firstbin_index, secondbin_index) \<Rightarrow>
          if count_list firstbin_index (- 1) > 0 \<or> count_list secondbin_index (- 1) > 0
          then Inl ValueError
          else
            let nab = (length angular_bins - 1) * (length (radial_bins_of image_size) - 1)
            in Inr \<lparr> a_bin_index =
                        map2 (\<lambda>f s. f + (s * int (length angular_bins - 1)
                                          * int (length (radial_bins_of image_size) - 1)))
                          firstbin_index secondbin_index,
                      n_absorption_bins = nab,
                      n_g_absorption = nab * nzbins \<rparr>)"

subsection \<open>Python built-ins on lists of floats\<close>

text \<open>
  \<open>max\<close> and \<open>min\<close> of an empty sequence raise ValueError.  \<open>int\<close> truncates
  towards zero; \<open>x // 1\<close> is the floor of \<open>x\<close> and \<open>x % 1\<close> its fractional part.
  \<open>err_bind\<close> sequences two steps of which the first may raise.
\<close>

definition err_bind :: "error + 'a \<Rightarrow> ('a \<Rightarrow> error + 'b) \<Rightarrow> error + 'b" where
  "err_bind r f = (case r of Inl e \<Rightarrow> Inl e | Inr x \<Rightarrow> f x)"

fun py_max :: "real list \<Rightarrow> error + real" where
  "py_max [] = Inl ValueError"
| "py_max (x # xs) = Inr (fold max xs x)"

fun py_min :: "real list \<Rightarrow> error + real" where
  "py_min [] = Inl ValueError"
| "py_min (x # xs) = Inr (fold min xs x)"

definition py_int :: "real \<Rightarrow> int" where
  "py_int x = (if 0 \<le> x then \<lfloor>x\<rfloor> else \<lceil>x\<rceil>)"

subsection \<open>Grid extents of the smooth scale factors\<close>

text \<open>
  Every binning method computes
  \<open>highest_parameter_value = int((max(values)//1) + up)\<close> and
  \<open>lowest_parameter_value = int((min(values)//1) - down)\<close> and passes
  \<open>highest - lowest + 1\<close> to the scale factor as its number of parameters.  The two local
  variables are kept in the result next to the count.
\<close>

record gridpoints =
  lowest_parameter_value :: int
  highest_parameter_value :: int
  n_parameters :: int

definition grid_of :: "real list \<Rightarrow> int \<Rightarrow> int \<Rightarrow> error + gridpoints" where
  "grid_of normalised_values up down =
     (err_bind (py_max normalised_values) (\<lambda>mx.
      err_bind (py_min normalised_values) (\<lambda>mn.
        let highest = \<lfloor>mx\<rfloor> + up;
            lowest = \<lfloor>mn\<rfloor> - down
        in Inr \<lparr> lowest_parameter_value = lowest, highest_parameter_value = highest,
                 n_parameters = highest - lowest + 1 \<rparr>)))"

text \<open>
  \<open>XDS_Data_Manager.bin_reflections_decay\<close>.  A zero minimum or maximum of \<open>d\<close> and a
  zero bin count raise ZeroDivisionError; a zero bin width (division of a flex array by
  zero) is treated as a failure as well.  The initial parameter value is 0 for the log
  parameterization and 1 otherwise.
\<close>

record decay_binning =
  normalised_res_values :: "real list"
  normalised_time_values :: "real list"
  res_grid :: gridpoints
  time_grid :: gridpoints
  g_decay_initial :: real

definition bin_reflections_decay ::
  "real list \<Rightarrow> real list \<Rightarrow> int \<Rightarrow> int \<Rightarrow> string \<Rightarrow> error + decay_binning" where
  "bin_reflections_decay d z_value ndbins nzbins parameterization =
     (err_bind (py_max z_value) (\<lambda>zmx.
      err_bind (py_min z_value) (\<lambda>zmn.
      err_bind (py_min d) (\<lambda>dmn.
      err_bind (py_max d) (\<lambda>dmx.
        if dmn = 0 \<or> dmx = 0 \<or> ndbins = 0 \<or> nzbins = 0 then Inl ZeroDivisionError
        else
          let zmax = zmx + 0.001;
              zmin = zmn - 0.001;
              resmax = (1 / dmn\<^sup>2) + 0.001;
              resmin = (1 / dmx\<^sup>2) - 0.001;
              one_resbin_width = (resmax - resmin) / real_of_int ndbins;
              one_time_width = (zmax - zmin) / real_of_int nzbins
          in if one_resbin_width = 0 then Inl ZeroDivisionError
             else
               let nrv = map (\<lambda>dv. ((1 / dv\<^sup>2) - resmin) / one_resbin_width) d;
                   ntv = map (\<lambda>z. (z - zmin) / one_time_width) z_value
               in err_bind (grid_of nrv 2 1) (\<lambda>rg.
                  err_bind (grid_of ntv 2 1) (\<lambda>tg.
                    Inr \<lparr> normalised_res_values = nrv, normalised_time_values = ntv,
                          res_grid = rg, time_grid = tg,
                          g_decay_initial = (if parameterization = ''log'' then 0 else 1) \<rparr>)))))))"

text \<open>\<open>XDS_Data_Manager.bin_reflections_modulation\<close>, with \<open>n_detector_bins\<close> bins in x and y.\<close>

record modulation_binning =
  normalised_x_values :: "real list"
  normalised_y_values :: "real list"
  x_grid :: gridpoints
  y_grid :: gridpoints
  g_modulation_initial :: real

definition bin_reflections_modulation ::
  "real list \<Rightarrow> real list \<Rightarrow> int \<Rightarrow> string \<Rightarrow> error + modulation_binning" where
  "bin_reflections_modulation xvalues yvalues n_detector_bins parameterization =
     (err_bind (py_max xvalues) (\<lambda>xmx.
      err_bind (py_min xvalues) (\<lambda>xmn.
      err_bind (py_max yvalues) (\<lambda>ymx.
      err_bind (py_min yvalues) (\<lambda>ymn.
        if n_detector_bins = 0 then Inl ZeroDivisionError
        else
          let xmax = xmx + 0.001; xmin = xmn - 0.001;
              ymax = ymx + 0.001; ymin = ymn - 0.001;
              one_x_width = (xmax - xmin) / real_of_int n_detector_bins;
              one_y_width = (ymax - ymin) / real_of_int n_detector_bins;
              nxv = map (\<lambda>x. (x - xmin) / one_x_width) xvalues;
              nyv = map (\<lambda>y. (y - ymin) / one_y_width) yvalues
          in err_bind (grid_of nxv 2 1) (\<lambda>xg.
             err_bind (grid_of nyv 2 1) (\<lambda>yg.
               Inr \<lparr> normalised_x_values = nxv, normalised_y_values = nyv,
                     x_grid = xg, y_grid = yg,
                     g_modulation_initial = (if parameterization = ''log'' then 0 else 1) \<rparr>)))))))"

text \<open>
  \<open>XDS_Data_Manager.bin_reflections_absorption\<close>, with four bins in x and y and the
  \<open>normalised_time_values\<close> column written by \<open>bin_reflections_decay\<close>.  Here the
  gridpoints go from \<open>min//1\<close> to \<open>max//1 + 1\<close>.
\<close>

record absorption_grid_binning =
  normalised_x_abs_values :: "real list"
  normalised_y_abs_values :: "real list"
  x_abs_grid :: gridpoints
  y_abs_grid :: gridpoints
  time_abs_grid :: gridpoints
  g_absorption_initial :: real

definition bin_reflections_absorption ::
  "real list \<Rightarrow> real list \<Rightarrow> real list \<Rightarrow> string \<Rightarrow> error + absorption_grid_binning" where
  "bin_reflections_absorption xvalues yvalues normalised_time parameterization =
     (err_bind (py_max xvalues) (\<lambda>xmx.
      err_bind (py_min xvalues) (\<lambda>xmn.
      err_bind (py_max yvalues) (\<lambda>ymx.
      err_bind (py_min yvalues) (\<lambda>ymn.
        let xmax = xmx + 0.001; xmin = xmn - 0.001;
            ymax = ymx + 0.001; ymin = ymn - 0.001;
            one_x_width = (xmax - xmin) / 4;
            one_y_width = (ymax - ymin) / 4;
            nxv = map (\<lambda>x. (x - xmin) / one_x_width) xvalues;
            nyv = map (\<lambda>y. (y - ymin) / one_y_width) yvalues
        in err_bind (grid_of nxv 1 0) (\<lambda>xg.
           err_bind (grid_of nyv 1 0) (\<lambda>yg.
           err_bind (grid_of normalised_time 1 0) (\<lambda>tg.
             Inr \<lparr> normalised_x_abs_values = nxv, normalised_y_abs_values = nyv,
                   x_abs_grid = xg, y_abs_grid = yg, time_abs_grid = tg,
                   g_absorption_initial = (if parameterization = ''log'' then 0 else 1) \<rparr>))))))))"

subsection \<open>aimless_Data_Manager: scale and decay terms\<close>

text \<open>
  Both methods start with the same lines: \<open>rotation_interval = 15.0\<close>, then, when the
  fractional part of \<open>osc_range[1] / rotation_interval\<close> is below 0.33, the interval is
  recomputed as \<open>float(n_phi_bins)/osc_range[1] + 0.001\<close>, a float division that raises
  ZeroDivisionError for a zero divisor.  The next statement overwrites the interval
  with \<open>15.0 + 0.001\<close>.
\<close>

definition adjust_rotation_interval :: "real \<times> real \<Rightarrow> error + real" where
  "adjust_rotation_interval osc_range =
     (let rotation_interval = 15
      in if frac (snd osc_range / rotation_interval) < 0.33
         then
           let n_phi_bins = py_int (snd osc_range / rotation_interval)
           in if snd osc_range = 0 then Inl ZeroDivisionError
              else Inr (real_of_int n_phi_bins / snd osc_range + 0.001)
         else Inr rotation_interval)"

record smooth_term_1D =
  normalised_values :: "real list"
  term_grid :: gridpoints
  term_initial :: real

definition normalise_rotation ::
  "real \<times> real \<Rightarrow> real \<Rightarrow> real list \<Rightarrow> real \<Rightarrow> real \<Rightarrow> error + smooth_term_1D" where
  "normalise_rotation osc_range one_oscillation_width z_value rotation_interval initial =
     (let nv = map (\<lambda>z. ((z * one_oscillation_width) - (fst osc_range - 0.001))
                          / rotation_interval) z_value
      in err_bind (grid_of nv 3 2) (\<lambda>g.
           Inr \<lparr> normalised_values = nv, term_grid = g, term_initial = initial \<rparr>))"

definition initialise_scale_term ::
  "real \<times> real \<Rightarrow> real \<Rightarrow> real list \<Rightarrow> error + smooth_term_1D" where
  "initialise_scale_term osc_range one_oscillation_width z_value =
     (err_bind (adjust_rotation_interval osc_range) (\<lambda>rotation_interval.
        let rotation_interval = 15 + 0.001
        in normalise_rotation osc_range one_oscillation_width z_value rotation_interval 1))"

definition initialise_decay_term ::
  "real \<times> real \<Rightarrow> real \<Rightarrow> real list \<Rightarrow> error + smooth_term_1D" where
  "initialise_decay_term osc_range one_oscillation_width z_value =
     (err_bind (adjust_rotation_interval osc_range) (\<lambda>rotation_interval.
        let rotation_interval = 15 + 0.001
        in normalise_rotation osc_range one_oscillation_width z_value rotation_interval 0))"

text \<open>
  The same two methods as the specification describes them: no adjustment of the
  interval, which is the constant \<open>15.0 + 0.001\<close>.
\<close>

definition initialise_scale_term_fixed ::
  "real \<times> real \<Rightarrow> real \<Rightarrow> real list \<Rightarrow> error + smooth_term_1D" where
  "initialise_scale_term_fixed osc_range one_oscillation_width z_value =
     normalise_rotation osc_range one_oscillation_width z_value (15 + 0.001) 1"

definition initialise_decay_term_fixed ::
  "real \<times> real \<Rightarrow> real \<Rightarrow> real list \<Rightarrow> error + smooth_term_1D" where
  "initialise_decay_term_fixed osc_range one_oscillation_width z_value =
     normalise_rotation osc_range one_oscillation_width z_value (15 + 0.001) 0"

text \<open>
  A coordinate lies strictly inside a grid when it is above the lowest and below the
  highest gridpoint; it has a gridpoint on either side with \<open>margin\<close> further gridpoints
  beyond each when it is at least \<open>margin\<close> above the lowest and more than \<open>margin\<close>
  below the highest gridpoint.
\<close>

definition strictly_inside :: "gridpoints \<Rightarrow> real list \<Rightarrow> bool" where
  "strictly_inside g vs =
     list_all (\<lambda>v. real_of_int (lowest_parameter_value g) < v
                  \<and> v < real_of_int (highest_parameter_value g)) vs"

definition inside_with_margin :: "int \<Rightarrow> gridpoints \<Rightarrow> real list \<Rightarrow> bool" where
  "inside_with_margin margin g vs =
     list_all (\<lambda>v. real_of_int (lowest_parameter_value g + margin) \<le> v
                  \<and> v < real_of_int (highest_parameter_value g - margin)) vs"

subsection \<open>XDS_Data_Manager: combining the component scales\<close>

text \<open>
  Arithmetic on flex arrays is elementwise on arrays of one size.
\<close>

definition flex_mul :: "real list \<Rightarrow> real list \<Rightarrow> real list" where
  "flex_mul xs ys = map2 (*) xs ys"

definition flex_add :: "real list \<Rightarrow> real list \<Rightarrow> real list" where
  "flex_add xs ys = map2 (+) xs ys"

text \<open>
  The last step of \<open>XDS_Data_Manager.expand_scales_to_all_reflections\<close> that writes the
  \<open>inverse_scale_factor\<close> column.  \<open>gscalevalues\<close>, \<open>gdecayvalues\<close> and \<open>gabsvalues\<close> are
  the arrays returned by \<open>calculate_smooth_scales\<close> of the modulation, decay and
  absorption components for the sorted reflections.
\<close>

definition expand_inverse_scale_factor ::
  "string \<Rightarrow> real list \<Rightarrow> real list \<Rightarrow> real list \<Rightarrow> real list" where
  "expand_inverse_scale_factor parameterization gscalevalues gdecayvalues gabsvalues =
     (if parameterization = ''log''
      then map exp (flex_add (flex_add gscalevalues gdecayvalues) gabsvalues)
      else flex_mul (flex_mul gscalevalues gdecayvalues) gabsvalues)"

text \<open>
  A scale factor object as \<open>set_up_minimisation\<close> sees it: its parameters
  (\<open>get_scale_factors\<close>) and its current value for every reflection of the scaling set
  (\<open>get_scales_of_reflections\<close>).
\<close>

record scale_factor =
  get_scale_factors :: "real list"
  get_scales_of_reflections :: "real list"

text \<open>\<open>np.prod(np.array(rows), axis=0)\<close> and \<open>np.sum(np.array(rows), axis=0)\<close> for rows of one length.\<close>

fun np_prod_axis0 :: "real list list \<Rightarrow> real list" where
  "np_prod_axis0 [] = []"
| "np_prod_axis0 [r] = r"
| "np_prod_axis0 (r # rs) = map2 (*) r (np_prod_axis0 rs)"

fun np_sum_axis0 :: "real list list \<Rightarrow> real list" where
  "np_sum_axis0 [] = []"
| "np_sum_axis0 [r] = r"
| "np_sum_axis0 (r # rs) = map2 (+) r (np_sum_axis0 rs)"

text \<open>
  \<open>XDS_Data_Manager.set_up_minimisation\<close>.  \<open>g_parameterisation\<close> is the dictionary of the
  three components as a list of items in iteration order.  The loop binds \<open>x\<close> only when
  \<open>param_name\<close> is one of the keys, so \<open>return x\<close> raises UnboundLocalError otherwise;
  the returned \<open>x\<close> is the field \<open>active_x\<close>.  \<open>constant_g_values\<close> keeps its previous
  value when the parameterization is neither \<open>'standard'\<close> nor \<open>'log'\<close>.
\<close>

record minimisation_setup =
  active_x :: "real list"
  n_active_params :: nat
  active_parameterisation :: string
  constant_g_values :: "real list option"

definition collect_constant_g_values ::
  "(string \<times> scale_factor) list \<Rightarrow> string \<Rightarrow> real list list" where
  "collect_constant_g_values g_parameterisation param_name =
     map (\<lambda>(p_type, scalefactor). get_scales_of_reflections scalefactor)
       (filter (\<lambda>(p_type, scalefactor). param_name \<noteq> p_type) g_parameterisation)"

definition set_up_minimisation ::
  "(string \<times> scale_factor) list \<Rightarrow> string \<Rightarrow> real list option \<Rightarrow> string
     \<Rightarrow> error + minimisation_setup" where
  "set_up_minimisation g_parameterisation parameterization previous param_name =
     (let cgv = collect_constant_g_values g_parameterisation param_name;
          new_constant = (if parameterization = ''standard'' then Some (np_prod_axis0 cgv)
                          else if parameterization = ''log'' then Some (np_sum_axis0 cgv)
                          else previous)
      in case filter (\<lambda>(p_type, scalefactor). param_name = p_type) g_parameterisation of
           [] \<Rightarrow> Inl UnboundLocalError
         | matches \<Rightarrow>
             let xv = get_scale_factors (snd (last matches))
             in Inr \<lparr> active_x = xv, n_active_params = length xv,
                      active_parameterisation = param_name,
                      constant_g_values = new_constant \<rparr>)"

subsection \<open>Fixed-Ih target function\<close>

text \<open>
  The block of an Ih table that the target function reads, with the fields of the mock
  table of \<open>test_basis_and_target_function.py\<close>.
\<close>

record Ih_table_block =
  inverse_scale_factors :: "real list"
  intensities :: "real list"
  Ih_values :: "real list"
  weights :: "real list"

text \<open>
  Modelled from the spec: \<open>ScalingTargetFixedIH.calculate_residuals\<close> and
  \<open>compute_residuals\<close> of \<open>target_function.py\<close>, which is not among the sources.  The
  specification gives the residual vector as \<open>R = I_obs - scale * Ih\<close>, elementwise, with Ih
  held constant; \<open>compute_residuals\<close> returns it together with the weights, as the test
  \<open>test_target_fixedIh\<close> unpacks it.  The Jacobian entries \<open>-11, -22, -33\<close> that the test
  expects for the derivatives \<open>1, 2, 3\<close> are those of this formula.
\<close>

definition calculate_residuals :: "Ih_table_block \<Rightarrow> real list" where
  "calculate_residuals t =
     map (\<lambda>(I, g, Ih). I - g * Ih)
       (zip (intensities t) (zip (inverse_scale_factors t) (Ih_values t)))"

definition compute_residuals :: "Ih_table_block \<Rightarrow> real list \<times> real list" where
  "compute_residuals t = (calculate_residuals t, weights t)"

subsection \<open>Reflection tables\<close>

text \<open>
  A \<open>flex.reflection_table\<close> is a set of named columns of one length.  It is modelled as
  an association list from column names to columns, a column being a list of cells.
  \<open>table[key] = column\<close> replaces or adds a column, \<open>del table[key]\<close> erases the column
  if there is one (the cleaning methods below delete \<open>asu_miller_index\<close> twice, and
  names that no code of the file writes, on every run), and \<open>select\<close> returns a new
  table with the chosen rows of every column: the rows flagged True, or the rows at the
  given indices in the given order.  \<open>select\<close> is given one flag per row by its callers.
\<close>

datatype cell = Double real | Int int | Bool bool | Miller "int \<times> int \<times> int"
  | Vec3 "real \<times> real \<times> real"

type_synonym table = "(string \<times> cell list) list"

definition keys :: "table \<Rightarrow> string list" where
  "keys t = map fst t"

definition nrows :: "table \<Rightarrow> nat" where
  "nrows t = (case t of [] \<Rightarrow> 0 | kc # _ \<Rightarrow> length (snd kc))"

definition getitem :: "table \<Rightarrow> string \<Rightarrow> error + cell list" where
  "getitem t key = (case map_of t key of None \<Rightarrow> Inl KeyError | Some c \<Rightarrow> Inr c)"

definition setitem :: "table \<Rightarrow> string \<Rightarrow> cell list \<Rightarrow> table" where
  "setitem t key c = AList.update key c t"

definition delitem :: "table \<Rightarrow> string \<Rightarrow> table" where
  "delitem t key = AList.delete key t"

definition select_rows :: "'a list \<Rightarrow> bool list \<Rightarrow> 'a list" where
  "select_rows xs sel = map fst (filter snd (zip xs sel))"

definition take_rows :: "'a list \<Rightarrow> nat list \<Rightarrow> 'a list" where
  "take_rows xs idx = map (\<lambda>i. xs ! i) idx"

definition select :: "table \<Rightarrow> bool list \<Rightarrow> table" where
  "select t sel = map (\<lambda>kc. (fst kc, select_rows (snd kc) sel)) t"

definition select_indices :: "table \<Rightarrow> nat list \<Rightarrow> table" where
  "select_indices t idx = map (\<lambda>kc. (fst kc, take_rows (snd kc) idx)) t"

text \<open>Reading a column as an array of doubles, Miller indices or vectors.\<close>

fun doubles :: "cell list \<Rightarrow> error + real list" where
  "doubles [] = Inr []"
| "doubles (Double v # cs) = err_bind (doubles cs) (\<lambda>vs. Inr (v # vs))"
| "doubles (c # cs) = Inl TypeError"

fun millers :: "cell list \<Rightarrow> error + (int \<times> int \<times> int) list" where
  "millers [] = Inr []"
| "millers (Miller v # cs) = err_bind (millers cs) (\<lambda>vs. Inr (v # vs))"
| "millers (c # cs) = Inl TypeError"

fun vec3s :: "cell list \<Rightarrow> error + (real \<times> real \<times> real) list" where
  "vec3s [] = Inr []"
| "vec3s (Vec3 v # cs) = err_bind (vec3s cs) (\<lambda>vs. Inr (v # vs))"
| "vec3s (c # cs) = Inl TypeError"

definition get_doubles :: "table \<Rightarrow> string \<Rightarrow> error + real list" where
  "get_doubles t key = err_bind (getitem t key) doubles"

definition get_millers :: "table \<Rightarrow> string \<Rightarrow> error + (int \<times> int \<times> int) list" where
  "get_millers t key = err_bind (getitem t key) millers"

definition get_vec3s :: "table \<Rightarrow> string \<Rightarrow> error + (real \<times> real \<times> real) list" where
  "get_vec3s t key = err_bind (getitem t key) vec3s"

definition flex_div :: "real list \<Rightarrow> real list \<Rightarrow> real list" where
  "flex_div xs ys = map2 (/) xs ys"

subsection \<open>Code outside the sources\<close>

text \<open>
  The data manager calls code that is not among the sources: the class \<open>Weighting\<close>, the
  function \<open>calculate_wilson_outliers\<close>, the scale factor classes, and the \<open>cctbx\<close>
  routines that map Miller indices to the asymmetric unit and sort them.  Their results
  are parameters of the model:
  \<^item> \<open>get_weights t\<close>: the weights that \<open>update_weights_for_scaling\<close> obtains for the table
    \<open>t\<close> (statistical weights after the I/sigma and resolution cutoffs and the removal of
    Wilson outliers);
  \<^item> \<open>wilson_flags t\<close>: the array returned by \<open>calculate_wilson_outliers\<close>, and
    \<open>wilson_side_columns t\<close>: the columns that the call itself writes into the table;
  \<^item> \<open>map_to_asu\<close> and \<open>sort_permutation\<close>: the symmetry reduction of an index and the
    permutation that sorts the reduced indices;
  \<^item> \<open>calculate_smooth_scales name coordinates\<close>: the scales of the component \<open>name\<close> at
    the given normalised coordinates, for its current parameters.
\<close>

record collaborators =
  get_weights :: "table \<Rightarrow> real list"
  wilson_flags :: "table \<Rightarrow> cell list"
  wilson_side_columns :: "table \<Rightarrow> (string \<times> cell list) list"
  map_to_asu :: "int \<times> int \<times> int \<Rightarrow> int \<times> int \<times> int"
  sort_permutation :: "(int \<times> int \<times> int) list \<Rightarrow> nat list"
  calculate_smooth_scales :: "string \<Rightarrow> real list list \<Rightarrow> real list"

record scaling_options =
  opt_integration_method :: string
  opt_parameterization :: string
  opt_n_d_bins :: int
  opt_n_z_bins :: int
  opt_n_detector_bins :: int

subsection \<open>Data_Manager\<close>

record data_manager =
  reflection_table :: table
  initial_keys :: "string list"
  sorted_reflections :: table
  reflections_for_scaling :: "table option"
  weights_for_scaling :: "real list"
  scaling_opts :: scaling_options

definition update_weights_for_scaling :: "collaborators \<Rightarrow> table \<Rightarrow> real list" where
  "update_weights_for_scaling co t = get_weights co t"

definition extract_reflections_for_scaling ::
  "collaborators \<Rightarrow> table \<Rightarrow> table \<times> real list" where
  "extract_reflections_for_scaling co t =
     (let weights_for_scaling = update_weights_for_scaling co t;
          sel = map (\<lambda>w. w > 0) weights_for_scaling;
          reflections_for_scaling = select t sel;
          weights_for_scaling = update_weights_for_scaling co reflections_for_scaling
      in (reflections_for_scaling, weights_for_scaling))"

text \<open>
  \<open>select_optimal_intensities\<close>: for the methods \<open>'sum'\<close> and \<open>'prf'\<close> the columns
  \<open>intensity\<close> and \<open>variance\<close> are written; \<open>'combine'\<close> sets the option to \<open>'prf'\<close> and runs
  the method again; any other value leaves the table as it is.
\<close>

definition select_optimal_intensities ::
  "scaling_options \<Rightarrow> table \<Rightarrow> error + (scaling_options \<times> table)" where
  "select_optimal_intensities opts t =
     (let opts = (if opt_integration_method opts = ''combine''
                  then opts \<lparr> opt_integration_method := ''prf'' \<rparr> else opts);
          intstr = opt_integration_method opts
      in if intstr = ''sum'' \<or> intstr = ''prf''
         then
           err_bind (get_doubles t (''intensity.'' @ intstr @ ''.value'')) (\<lambda>v.
           err_bind (get_doubles t ''lp'') (\<lambda>lp.
           err_bind (get_doubles t ''dqe'') (\<lambda>dqe.
           let t = setitem t ''intensity'' (map Double (flex_div (flex_mul v lp) dqe))
           in
           err_bind (get_doubles t (''intensity.'' @ intstr @ ''.variance'')) (\<lambda>var.
             Inr (opts,
                  setitem t ''variance''
                    (map Double (flex_div (flex_mul var (flex_mul lp lp))
                                          (flex_mul dqe dqe))))))))
         else Inr (opts, t))"

text \<open>
  \<open>map_indices_to_asu\<close> writes \<open>asu_miller_index\<close> into the table it is given, which is
  \<open>self.reflection_table\<close>, and returns the rows of that table in sorted order; both
  tables are results.
\<close>

definition map_indices_to_asu :: "collaborators \<Rightarrow> table \<Rightarrow> error + (table \<times> table)" where
  "map_indices_to_asu co t =
     err_bind (get_millers t ''miller_index'') (\<lambda>indices.
       let asu = map (map_to_asu co) indices;
           t = setitem t ''asu_miller_index'' (map Miller asu);
           permuted = sort_permutation co asu;
           sorted_refl = select_indices t permuted
       in Inr (t, sorted_refl))"

text \<open>
  \<open>Data_Manager.__init__\<close>.  \<open>integrated\<close> is the array
  \<open>get_flags(flags.integrated)\<close> of the input table \<open>reflections[0]\<close>.  The five
  assignments that follow the recording of the initial keys are \<open>write_working_columns\<close>,
  with \<open>xyz\<close> the column \<open>xyzobs.px.value\<close>.
\<close>

definition write_working_columns :: "table \<Rightarrow> (real \<times> real \<times> real) list \<Rightarrow> table" where
  "write_working_columns rt xyz =
     (let rt = setitem rt ''x_value'' (map (\<lambda>v. Double (fst v)) xyz);
          rt = setitem rt ''y_value'' (map (\<lambda>v. Double (fst (snd v))) xyz);
          rt = setitem rt ''z_value'' (map (\<lambda>v. Double (snd (snd v))) xyz);
          rt = setitem rt ''inverse_scale_factor'' (replicate (nrows rt) (Double 1));
          rt = setitem rt ''Ih_values'' (replicate (nrows rt) (Double 0))
      in rt)"

definition Data_Manager_init ::
  "collaborators \<Rightarrow> table \<Rightarrow> bool list \<Rightarrow> scaling_options \<Rightarrow> error + data_manager" where
  "Data_Manager_init co reflections integrated opts =
     (let rt = select reflections integrated;
          ikeys = keys rt
      in
      err_bind (get_vec3s rt ''xyzobs.px.value'') (\<lambda>xyz.
      let rt = write_working_columns rt xyz
      in
      err_bind (select_optimal_intensities opts rt) (\<lambda>(opts, rt).
      err_bind (map_indices_to_asu co rt) (\<lambda>(rt, sorted_refl).
        Inr \<lparr> reflection_table = rt, initial_keys = ikeys, sorted_reflections = sorted_refl,
              reflections_for_scaling = None,
              weights_for_scaling = update_weights_for_scaling co sorted_refl,
              scaling_opts = opts \<rparr>))))"

subsection \<open>Ih estimator\<close>

text \<open>
  Modelled from the spec: \<open>single_Ih_table.calc_Ih\<close> of \<open>target_Ih.py\<close>, which is not among
  the sources.  The reflections that share an asu Miller index form a group (contiguous
  in the sorted table); for each group \<open>Ih = \<Sum>(g * I * w) / \<Sum>(g\<^sup>2 * w)\<close>, with \<open>Ih = 0\<close>
  for a group whose weights sum to zero, and Ih is broadcast to every member of the
  group.  An observation is the triple of its scale \<open>g\<close>, intensity \<open>I\<close> and weight \<open>w\<close>.
\<close>

definition Ih_of_group :: "(real \<times> real \<times> real) list \<Rightarrow> real" where
  "Ih_of_group obs =
     (if sum_list (map (\<lambda>(g, I, w). w) obs) = 0 then 0
      else sum_list (map (\<lambda>(g, I, w). g * I * w) obs)
             / sum_list (map (\<lambda>(g, I, w). g * g * w) obs))"

definition calc_Ih_rows :: "((int \<times> int \<times> int) \<times> real \<times> real \<times> real) list \<Rightarrow> real list" where
  "calc_Ih_rows rows =
     map (\<lambda>r. Ih_of_group (map snd (filter (\<lambda>r'. fst r' = fst r) rows))) rows"

definition calc_Ih ::
  "(int \<times> int \<times> int) list \<Rightarrow> real list \<Rightarrow> real list \<Rightarrow> real list \<Rightarrow> real list" where
  "calc_Ih asu_miller_index scales intensity weightv =
     calc_Ih_rows (zip asu_miller_index (zip scales (zip intensity weightv)))"

definition single_Ih_table :: "table \<Rightarrow> real list \<Rightarrow> error + real list" where
  "single_Ih_table t weightv =
     err_bind (get_millers t ''asu_miller_index'') (\<lambda>asu.
     err_bind (get_doubles t ''inverse_scale_factor'') (\<lambda>g.
     err_bind (get_doubles t ''intensity'') (\<lambda>I.
       Inr (calc_Ih asu g I weightv))))"

subsection \<open>XDS_Data_Manager\<close>

text \<open>
  The three binning methods read their columns from \<open>self.sorted_reflectionsections\<close> and write
  the normalised columns back; the numbers of bins come from the scaling options.
\<close>

definition XDS_bin_reflections_decay :: "scaling_options \<Rightarrow> table \<Rightarrow> error + table" where
  "XDS_bin_reflections_decay opts sorted_refl =
     err_bind (get_doubles sorted_refl ''z_value'') (\<lambda>zv.
     err_bind (get_doubles sorted_refl ''d'') (\<lambda>dv.
     err_bind (bin_reflections_decay dv zv (opt_n_d_bins opts) (opt_n_z_bins opts)
                 (opt_parameterization opts)) (\<lambda>b.
       Inr (setitem
              (setitem sorted_refl ''normalised_res_values'' (map Double (normalised_res_values b)))
              ''normalised_time_values'' (map Double (normalised_time_values b))))))"

definition XDS_bin_reflections_absorption :: "scaling_options \<Rightarrow> table \<Rightarrow> error + table" where
  "XDS_bin_reflections_absorption opts sorted_refl =
     err_bind (get_doubles sorted_refl ''x_value'') (\<lambda>xv.
     err_bind (get_doubles sorted_refl ''y_value'') (\<lambda>yv.
     err_bind (get_doubles sorted_refl ''normalised_time_values'') (\<lambda>tv.
     err_bind (bin_reflections_absorption xv yv tv (opt_parameterization opts)) (\<lambda>b.
       Inr (setitem
              (setitem sorted_refl ''normalised_x_abs_values''
                 (map Double (normalised_x_abs_values b)))
              ''normalised_y_abs_values'' (map Double (normalised_y_abs_values b)))))))"

definition XDS_bin_reflections_modulation :: "scaling_options \<Rightarrow> table \<Rightarrow> error + table" where
  "XDS_bin_reflections_modulation opts sorted_refl =
     err_bind (get_doubles sorted_refl ''x_value'') (\<lambda>xv.
     err_bind (get_doubles sorted_refl ''y_value'') (\<lambda>yv.
     err_bind (bin_reflections_modulation xv yv (opt_n_detector_bins opts)
                 (opt_parameterization opts)) (\<lambda>b.
       Inr (setitem
              (setitem sorted_refl ''normalised_x_values'' (map Double (normalised_x_values b)))
              ''normalised_y_values'' (map Double (normalised_y_values b))))))"

definition XDS_initialise_scale_factors :: "scaling_options \<Rightarrow> table \<Rightarrow> error + table" where
  "XDS_initialise_scale_factors opts sorted_refl =
     err_bind (XDS_bin_reflections_decay opts sorted_refl) (\<lambda>sorted_refl.
     err_bind (XDS_bin_reflections_absorption opts sorted_refl) (\<lambda>sorted_refl.
       XDS_bin_reflections_modulation opts sorted_refl))"

text \<open>
  \<open>XDS_Data_Manager.__init__\<close>, as far as the reflection tables are concerned: the scale
  factor objects live in the collaborators.
\<close>

definition XDS_Data_Manager_init ::
  "collaborators \<Rightarrow> table \<Rightarrow> bool list \<Rightarrow> scaling_options \<Rightarrow> error + data_manager" where
  "XDS_Data_Manager_init co reflections integrated opts =
     err_bind (Data_Manager_init co reflections integrated opts) (\<lambda>dm.
     err_bind (XDS_initialise_scale_factors (scaling_opts dm) (sorted_reflections dm)) (\<lambda>sorted_refl.
       let flags = wilson_flags co sorted_refl;
           sorted_refl = fold (\<lambda>kc t. setitem t (fst kc) (snd kc)) (wilson_side_columns co sorted_refl)
                      sorted_refl;
           sorted_refl = setitem sorted_refl ''wilson_outlier_flag'' flags;
           rw = extract_reflections_for_scaling co sorted_refl
       in Inr (dm \<lparr> sorted_reflections := sorted_refl,
                    reflections_for_scaling := Some (fst rw),
                    weights_for_scaling := snd rw \<rparr>)))"

text \<open>\<open>XDS_Data_Manager.expand_scales_to_all_reflections\<close>.\<close>

definition expand_scales_to_all_reflections ::
  "collaborators \<Rightarrow> data_manager \<Rightarrow> error + data_manager" where
  "expand_scales_to_all_reflections co dm =
     (let sorted_refl = sorted_reflections dm
      in
      err_bind (get_doubles sorted_refl ''normalised_x_values'') (\<lambda>nx.
      err_bind (get_doubles sorted_refl ''normalised_y_values'') (\<lambda>ny.
      let gscalevalues = calculate_smooth_scales co ''g_modulation'' [nx, ny]
      in
      err_bind (get_doubles sorted_refl ''normalised_res_values'') (\<lambda>nr.
      err_bind (get_doubles sorted_refl ''normalised_time_values'') (\<lambda>nt.
      let gdecayvalues = calculate_smooth_scales co ''g_decay'' [nr, nt]
      in
      err_bind (get_doubles sorted_refl ''normalised_x_abs_values'') (\<lambda>nxa.
      err_bind (get_doubles sorted_refl ''normalised_y_abs_values'') (\<lambda>nya.
      let gabsvalues = calculate_smooth_scales co ''g_absorption'' [nxa, nya, nt];
          sorted_refl = setitem sorted_refl ''inverse_scale_factor''
                     (map Double (expand_inverse_scale_factor
                        (opt_parameterization (scaling_opts dm))
                        gscalevalues gdecayvalues gabsvalues));
          weights_for_scaling = update_weights_for_scaling co sorted_refl
      in
      err_bind (single_Ih_table sorted_refl weights_for_scaling) (\<lambda>Ih.
        Inr (dm \<lparr> sorted_reflections := setitem sorted_refl ''Ih_values'' (map Double Ih),
                   weights_for_scaling := weights_for_scaling \<rparr>)))))))))"

text \<open>
  The two \<open>clean_reflection_table\<close> methods: every key of \<open>self.reflection_table\<close> that is
  not an initial key (with \<open>inverse_scale_factor\<close> appended to them) is deleted from
  \<open>self.sorted_reflectionsections\<close>, then every name of the fixed list \<open>added_columns\<close>.
\<close>

definition XDS_added_columns :: "string list" where
  "XDS_added_columns =
     [''l_bin_index'', ''a_bin_index'', ''xy_bin_index'', ''h_index'',
      ''asu_miller_index'', ''normalised_y_values'',
      ''normalised_x_values'', ''normalised_y_abs_values'',
      ''normalised_x_abs_values'', ''normalised_time_values'',
      ''normalised_res_values'', ''wilson_outlier_flag'',
      ''centric_flag'']"

definition aimless_added_columns :: "string list" where
  "aimless_added_columns =
     [''Ih_values'', ''h_index'', ''asu_miller_index'',
      ''decay_factor'', ''angular_scale_factor'',
      ''normalised_rotation_angle'', ''normalised_time_values'',
      ''wilson_outlier_flag'', ''centric_flag'']"

definition clean_with :: "string list \<Rightarrow> data_manager \<Rightarrow> data_manager" where
  "clean_with added_columns dm =
     (let ikeys = initial_keys dm @ [''inverse_scale_factor''];
          sorted_refl = fold (\<lambda>key t. if key \<notin> set ikeys then delitem t key else t)
                     (keys (reflection_table dm)) (sorted_reflections dm);
          sorted_refl = fold (\<lambda>key t. delitem t key) added_columns sorted_refl
      in dm \<lparr> initial_keys := ikeys, sorted_reflections := sorted_refl \<rparr>)"

definition XDS_clean_reflection_table :: "data_manager \<Rightarrow> data_manager" where
  "XDS_clean_reflection_table dm = clean_with XDS_added_columns dm"

definition aimless_clean_reflection_table :: "data_manager \<Rightarrow> data_manager" where
  "aimless_clean_reflection_table dm = clean_with aimless_added_columns dm"

subsection \<open>A concrete set of collaborators\<close>

text \<open>
  Collaborators for running the model on an example: statistical weights \<open>1/variance\<close>
  with a resolution cutoff at \<open>d = 1\<close> (weight 0 below it), no Wilson outliers (the call
  writes a \<open>centric_flag\<close> column), the asymmetric unit \<open>h, k, l \<ge> 0\<close>, the permutation
  that sorts by a packed index, and components whose scale is 2 everywhere.
\<close>

definition example_weights :: "table \<Rightarrow> real list" where
  "example_weights t =
     (case (get_doubles t ''variance'', get_doubles t ''d'') of
        (Inr var, Inr dv) \<Rightarrow> map (\<lambda>(var, dv). if dv < 1 then 0 else 1 / var) (zip var dv)
      | _ \<Rightarrow> [])"

definition packed_index :: "int \<times> int \<times> int \<Rightarrow> int" where
  "packed_index hkl = (fst hkl * 1024 + fst (snd hkl)) * 1024 + snd (snd hkl)"

definition example_collaborators :: collaborators where
  "example_collaborators =
     \<lparr> get_weights = example_weights,
       wilson_flags = (\<lambda>t. replicate (nrows t) (Bool False)),
       wilson_side_columns = (\<lambda>t. [(''centric_flag'', replicate (nrows t) (Bool False))]),
       map_to_asu = (\<lambda>hkl. (\<bar>fst hkl\<bar>, \<bar>fst (snd hkl)\<bar>, \<bar>snd (snd hkl)\<bar>)),
       sort_permutation = (\<lambda>ms. sort_key (\<lambda>i. packed_index (ms ! i)) [0 ..< length ms]),
       calculate_smooth_scales = (\<lambda>name coordinates. replicate (length (hd coordinates)) 2) \<rparr>"

text \<open>
  The table of \<open>generated_refl\<close> in \<open>test_basis_and_target_function.py\<close> with a fourth
  reflection that does not carry the integrated flag; the variances are squares.
\<close>

definition example_reflections :: table where
  "example_reflections =
     [(''intensity.prf.value'', [Double 75, Double 10, Double 100, Double 1]),
      (''intensity.prf.variance'', [Double 25, Double 4, Double 100, Double 1]),
      (''miller_index'', [Miller (1, 0, 0), Miller (0, 0, 1), Miller (- 1, 0, 0),
                          Miller (2, 0, 0)]),
      (''d'', [Double 2, Double 0.8, Double 2, Double 1]),
      (''lp'', [Double 1, Double 1, Double 1, Double 1]),
      (''dqe'', [Double 1, Double 1, Double 1, Double 1]),
      (''xyzobs.px.value'', [Vec3 (0, 0, 0), Vec3 (0, 0, 5), Vec3 (0, 0, 10),
                             Vec3 (1, 1, 1)])]"

definition example_integrated :: "bool list" where
  "example_integrated = [True, True, True, False]"

definition example_options :: scaling_options where
  "example_options =
     \<lparr> opt_integration_method = ''prf'', opt_parameterization = ''standard'',
       opt_n_d_bins = 2, opt_n_z_bins = 2, opt_n_detector_bins = 2 \<rparr>"

text \<open>
  The names that the XDS data manager itself writes into its tables, and the test that
  a data manager state has the columns that \<open>expand_scales_to_all_reflections\<close> reads.
\<close>

definition XDS_working_columns :: "string list" where
  "XDS_working_columns =
     [''x_value'', ''y_value'', ''z_value'', ''inverse_scale_factor'', ''Ih_values'',
      ''intensity'', ''variance'', ''asu_miller_index'',
      ''normalised_res_values'', ''normalised_time_values'',
      ''normalised_x_abs_values'', ''normalised_y_abs_values'',
      ''normalised_x_values'', ''normalised_y_values'', ''wilson_outlier_flag'']"

definition readable_doubles :: "table \<Rightarrow> string \<Rightarrow> bool" where
  "readable_doubles t key = (case get_doubles t key of Inr v \<Rightarrow> True | Inl e \<Rightarrow> False)"

definition expandable :: "data_manager \<Rightarrow> bool" where
  "expandable dm =
     (list_all (readable_doubles (sorted_reflections dm))
        [''normalised_x_values'', ''normalised_y_values'', ''normalised_res_values'',
         ''normalised_time_values'', ''normalised_x_abs_values'',
         ''normalised_y_abs_values'', ''intensity'']
      \<and> (case get_millers (sorted_reflections dm) ''asu_miller_index'' of
            Inr v \<Rightarrow> True | Inl e \<Rightarrow> False))"

definition colliding_reflections :: table where
  "colliding_reflections =
     example_reflections
       @ [(''asu_miller_index'', [Miller (1, 0, 0), Miller (0, 0, 1), Miller (1, 0, 0),
                                  Miller (2, 0, 0)])]"

subsection \<open>update_for_minimisation\<close>

text \<open>
  The part of the data manager that one iteration of the minimisation reads and writes:
  the scaling set and its weights, the parameters of the components, the name of the
  active component and the constant scales of the others (set by
  \<open>set_up_minimisation\<close>), the derivatives kept in \<open>active_derivatives\<close>, and the scale
  factors and Ih values held by the Ih table.
\<close>

record minimisation_state =
  ms_reflections :: table
  ms_weights :: "real list"
  ms_parameters :: "(string \<times> real list) list"
  ms_active :: string
  ms_constant :: "real list"
  ms_parameterization :: string
  ms_active_derivatives :: "real list list"
  ms_Ih_scales :: "real list"
  ms_Ih_values :: "real list"

text \<open>
  The smooth interpolation of a component is not among the sources; \<open>component_scales\<close>
  and \<open>component_derivatives\<close> give, for a component name and a parameter vector, the
  value of the component at every reflection of the scaling set and the matrix of its
  partial derivatives (one row per reflection).
\<close>

record components =
  component_scales :: "string \<Rightarrow> real list \<Rightarrow> real list"
  component_derivatives :: "string \<Rightarrow> real list \<Rightarrow> real list list"

text \<open>
  Modelled from the spec: the basis function (\<open>basis_functions.py\<close> is not among the
  sources).  The parameter vector is written into the active component; the scale of a
  reflection is the product of the contributions of the components, or the exponential
  of their sum for the log parameterization; a derivative is the derivative of the active
  component times the scale of the others (times the whole scale for the log
  parameterization).
\<close>

definition get_basis_function ::
  "components \<Rightarrow> minimisation_state \<Rightarrow> real list
     \<Rightarrow> (real list \<times> real list list) \<times> minimisation_state" where
  "get_basis_function cs st parameters =
     (let st = st \<lparr> ms_parameters := AList.update (ms_active st) parameters (ms_parameters st) \<rparr>;
          g = component_scales cs (ms_active st) parameters;
          dg = component_derivatives cs (ms_active st) parameters;
          scales = (if ms_parameterization st = ''log''
                    then map exp (flex_add g (ms_constant st))
                    else flex_mul g (ms_constant st));
          others = (if ms_parameterization st = ''log'' then scales else ms_constant st)
      in ((scales, map2 (\<lambda>row s. map (\<lambda>dv. dv * s) row) dg others), st))"

text \<open>
  \<open>Data_Manager.update_for_minimisation\<close>: the new scale factors are written into the
  scaling set, the derivatives are kept, and the Ih table takes the scale factors from
  the column just written and recomputes Ih (\<open>calc_Ih\<close> above).
\<close>

definition update_for_minimisation ::
  "components \<Rightarrow> minimisation_state \<Rightarrow> real list \<Rightarrow> error + minimisation_state" where
  "update_for_minimisation cs st parameters =
     (let (basis_fn, st) = get_basis_function cs st parameters;
          st = st \<lparr> ms_reflections :=
                       setitem (ms_reflections st) ''inverse_scale_factor''
                         (map Double (fst basis_fn)) \<rparr>;
          st = st \<lparr> ms_active_derivatives := snd basis_fn \<rparr>
      in
      err_bind (get_doubles (ms_reflections st) ''inverse_scale_factor'') (\<lambda>g.
      let st = st \<lparr> ms_Ih_scales := g \<rparr>
      in
      err_bind (get_millers (ms_reflections st) ''asu_miller_index'') (\<lambda>asu.
      err_bind (get_doubles (ms_reflections st) ''intensity'') (\<lambda>I.
        Inr (st \<lparr> ms_Ih_values := calc_Ih asu (ms_Ih_scales st) I (ms_weights st) \<rparr>)))))"

text \<open>
  Modelled from the spec: the residuals that the target function computes from the state,
  \<open>R = I_obs - scale * Ih\<close> (\<open>calculate_residuals\<close> above).
\<close>

definition residuals :: "minimisation_state \<Rightarrow> error + real list" where
  "residuals st =
     err_bind (get_doubles (ms_reflections st) ''intensity'') (\<lambda>I.
       Inr (calculate_residuals
              \<lparr> inverse_scale_factors = ms_Ih_scales st, intensities = I,
                Ih_values = ms_Ih_values st, weights = ms_weights st \<rparr>))"

text \<open>
  A state of the XDS data manager with two sorted reflections, for running
  \<open>expand_scales_to_all_reflections\<close> on an example.
\<close>

definition example_sorted_state :: data_manager where
  "example_sorted_state =
     \<lparr> reflection_table = [], initial_keys = [],
       sorted_reflections =
         [(''asu_miller_index'', [Miller (1, 0, 0), Miller (1, 0, 0)]),
          (''intensity'', [Double 75, Double 100]),
          (''variance'', [Double 25, Double 100]),
          (''d'', [Double 2, Double 2]),
          (''inverse_scale_factor'', [Double 1, Double 1]),
          (''normalised_res_values'', [Double (1 / 2), Double (3 / 2)]),
          (''normalised_time_values'', [Double (1 / 4), Double (5 / 4)]),
          (''normalised_x_abs_values'', [Double 1, Double 3]),
          (''normalised_y_abs_values'', [Double 2, Double 2]),
          (''normalised_x_values'', [Double (1 / 2), Double 1]),
          (''normalised_y_values'', [Double 1, Double (3 / 2)])],
       reflections_for_scaling = None,
       weights_for_scaling = [],
       scaling_opts = example_options \<rparr>"

section \<open>Properties\<close>

subsection \<open>select_variables_in_range\<close>

lemma length_select_variables_in_range:
  "length (select_variables_in_range vs lo hi) = length vs"
  by (induction vs) simp_all

lemma nth_select_variables_in_range:
  "i < length vs \<Longrightarrow> select_variables_in_range vs lo hi ! i = (lo < vs ! i \<and> vs ! i \<le> hi)"
proof (induction vs arbitrary: i)
  case Nil
  then show ?case by simp
next
  case (Cons v vs)
  then show ?case by (cases i) simp_all
qed

text \<open>
  Claim C10.  \<open>select_variables_in_range\<close> returns a boolean list of the length of its
  input that is True at position \<open>i\<close> exactly when
  \<open>lower_limit < variable_array[i] \<le> upper_limit\<close>; hence for bin boundaries in
  increasing order, two different adjacent intervals \<open>(b\<^sub>j, b\<^sub>j\<^sub>+\<^sub>1]\<close> and
  \<open>(b\<^sub>k, b\<^sub>k\<^sub>+\<^sub>1]\<close> never both select the same element.
\<close>

theorem select_variables_in_range_spec:
  "length (select_variables_in_range vs lo hi) = length vs
   \<and> (\<forall>i < length vs. select_variables_in_range vs lo hi ! i = (lo < vs ! i \<and> vs ! i \<le> hi))
   \<and> (sorted bins \<longrightarrow>
        (\<forall>i < length vs. \<forall>j k. j < k \<and> Suc k < length bins \<longrightarrow>
           \<not> (select_variables_in_range vs (bins ! j) (bins ! Suc j) ! i
              \<and> select_variables_in_range vs (bins ! k) (bins ! Suc k) ! i)))"
proof (intro conjI allI impI)
  show "length (select_variables_in_range vs lo hi) = length vs"
    by (rule length_select_variables_in_range)
next
  fix i assume "i < length vs"
  then show "select_variables_in_range vs lo hi ! i = (lo < vs ! i \<and> vs ! i \<le> hi)"
    by (rule nth_select_variables_in_range)
next
  fix i j k
  assume srt: "sorted bins" and i: "i < length vs" and jk: "j < k \<and> Suc k < length bins"
  show "\<not> (select_variables_in_range vs (bins ! j) (bins ! Suc j) ! i
           \<and> select_variables_in_range vs (bins ! k) (bins ! Suc k) ! i)"
  proof
    assume both: "select_variables_in_range vs (bins ! j) (bins ! Suc j) ! i
           \<and> select_variables_in_range vs (bins ! k) (bins ! Suc k) ! i"
    from both i have a: "vs ! i \<le> bins ! Suc j" and b: "bins ! k < vs ! i"
      by (simp_all add: nth_select_variables_in_range)
    from jk have "Suc j \<le> k" "k < length bins" by simp_all
    with srt have "bins ! Suc j \<le> bins ! k" by (simp add: sorted_nth_mono)
    with a b show False by simp
  qed
qed

theorem select_variables_in_range_spec_witness:
  "sorted [0, 1, 2 :: real]
   \<and> select_variables_in_range [1, 3/2] 0 1 = [True, False]
   \<and> select_variables_in_range [1, 3/2] 1 2 = [False, True]
   \<and> \<not> (select_variables_in_range [1, 3/2] ([0, 1, 2] ! 0) ([0, 1, 2] ! Suc 0) ! 0
        \<and> select_variables_in_range [1, 3/2] ([0, 1, 2] ! 1) ([0, 1, 2] ! Suc 1) ! 0)"
proof -
  have s: "sorted [0, 1, 2 :: real]" by simp
  from select_variables_in_range_spec [of "[1, 3/2]" 0 1 "[0, 1, 2]"] s
  have "\<not> (select_variables_in_range [1, 3/2] ([0, 1, 2] ! 0) ([0, 1, 2] ! Suc 0) ! 0
        \<and> select_variables_in_range [1, 3/2] ([0, 1, 2] ! 1) ([0, 1, 2] ! Suc 1) ! 0)"
    by simp
  then show ?thesis by simp
qed

subsection \<open>bin_reflections_absorption_radially\<close>

lemma length_set_selected:
  "length sel = length xs \<Longrightarrow> length (set_selected xs sel v) = length xs"
  by (simp add: set_selected_def)

lemma nth_set_selected:
  "length sel = length xs \<Longrightarrow> i < length xs \<Longrightarrow>
   set_selected xs sel v ! i = (if sel ! i then v else xs ! i)"
  by (simp add: set_selected_def)

lemma length_run_steps:
  "\<forall>s \<in> set steps. length (fst s) = length ix \<Longrightarrow> length (run_steps steps ix) = length ix"
proof (induction steps arbitrary: ix)
  case Nil
  then show ?case by (simp add: run_steps_def)
next
  case (Cons s steps)
  obtain sel v where s: "s = (sel, v)" by (cases s)
  with Cons.prems have l: "length sel = length ix" by simp
  have "run_steps (s # steps) ix = run_steps steps (set_selected ix sel v)"
    by (simp add: run_steps_def s)
  moreover have "length (run_steps steps (set_selected ix sel v)) = length (set_selected ix sel v)"
    using Cons.prems l by (intro Cons.IH) (simp add: length_set_selected)
  ultimately show ?case using l by (simp add: length_set_selected)
qed

text \<open>An entry keeps its initial value exactly when no step selects it; otherwise it holds
  the value of a step that selected it.\<close>

lemma run_steps_unassigned:
  assumes "\<forall>s \<in> set steps. length (fst s) = length ix" and "i < length ix"
    and "\<forall>s \<in> set steps. snd s \<noteq> u"
  shows "(run_steps steps ix ! i = u) = (ix ! i = u \<and> (\<forall>s \<in> set steps. \<not> fst s ! i))"
  using assms
proof (induction steps arbitrary: ix)
  case Nil
  then show ?case by (simp add: run_steps_def)
next
  case (Cons s steps)
  obtain sel v where s: "s = (sel, v)" by (cases s)
  with Cons.prems have l: "length sel = length ix" and v: "v \<noteq> u" by auto
  let ?ix = "set_selected ix sel v"
  have r: "run_steps (s # steps) ix = run_steps steps ?ix"
    by (simp add: run_steps_def s)
  have "(run_steps steps ?ix ! i = u) = (?ix ! i = u \<and> (\<forall>s \<in> set steps. \<not> fst s ! i))"
    using Cons.prems l by (intro Cons.IH) (simp_all add: length_set_selected)
  moreover have "(?ix ! i = u) = (ix ! i = u \<and> \<not> sel ! i)"
    using l Cons.prems(2) v by (simp add: nth_set_selected)
  ultimately show ?case using r s by auto
qed

lemma run_steps_value:
  assumes "\<forall>s \<in> set steps. length (fst s) = length ix" and "i < length ix"
  shows "run_steps steps ix ! i = ix ! i \<or> run_steps steps ix ! i \<in> snd ` set steps"
  using assms
proof (induction steps arbitrary: ix)
  case Nil
  then show ?case by (simp add: run_steps_def)
next
  case (Cons s steps)
  obtain sel v where s: "s = (sel, v)" by (cases s)
  with Cons.prems have l: "length sel = length ix" by auto
  let ?ix = "set_selected ix sel v"
  have r: "run_steps (s # steps) ix = run_steps steps ?ix"
    by (simp add: run_steps_def s)
  have "run_steps steps ?ix ! i = ?ix ! i \<or> run_steps steps ?ix ! i \<in> snd ` set steps"
    using Cons.prems l by (intro Cons.IH) (simp_all add: length_set_selected)
  moreover have "?ix ! i = ix ! i \<or> ?ix ! i = v"
    using l Cons.prems(2) by (simp add: nth_set_selected)
  ultimately show ?case using r s by auto
qed

lemma in_set_concat_map:
  "s \<in> set (concat (map (\<lambda>i. map (f i) ys) xs)) \<longleftrightarrow> (\<exists>i \<in> set xs. \<exists>j \<in> set ys. s = f i j)"
  by auto

lemma firstbin_steps_set:
  "s \<in> set (firstbin_steps av rv ab rb) \<longleftrightarrow>
     (\<exists>i < length ab - 1. \<exists>j < length rb - 1.
        s = (map2 (\<and>) (select_variables_in_range av (ab ! i) (ab ! (i + 1)))
                       (select_variables_in_range rv (rb ! j) (rb ! (j + 1))),
             int (i * (length rb - 1) + j)))"
proof -
  have "s \<in> set (firstbin_steps av rv ab rb) \<longleftrightarrow>
     (\<exists>i \<in> set [0 ..< length ab - 1]. \<exists>j \<in> set [0 ..< length rb - 1].
        s = (map2 (\<and>) (select_variables_in_range av (ab ! i) (ab ! (i + 1)))
                       (select_variables_in_range rv (rb ! j) (rb ! (j + 1))),
             int (i * (length rb - 1) + j)))"
    unfolding firstbin_steps_def Let_def by (rule in_set_concat_map)
  then show ?thesis by (simp only: set_upt atLeastLessThan_iff Bex_def) blast
qed

lemma secondbin_steps_set:
  "s \<in> set (secondbin_steps zv zb n) \<longleftrightarrow>
     (\<exists>i < n. s = (select_variables_in_range zv (zb ! i) (zb ! (i + 1)), int i))"
  by (auto simp: secondbin_steps_def)

lemma length_radial_bins_of: "length (radial_bins_of sz) = 4"
  by (simp add: radial_bins_of_def Let_def)

lemma length_angular_bins: "length angular_bins = 9"
  by (simp add: angular_bins_def)


lemma count_list_pos_iff: "(count_list xs x > 0) = (\<exists>i < length xs. xs ! i = x)"
proof -
  have "(count_list xs x > 0) = (x \<in> set xs)"
    using count_list_0_iff [of xs x] by auto
  then show ?thesis by (auto simp: in_set_conv_nth)
qed

lemma firstbin_steps_length:
  assumes "length av = n" and "length rv = n" and "s \<in> set (firstbin_steps av rv ab rb)"
  shows "length (fst s) = n"
  using assms by (auto simp: firstbin_steps_set length_select_variables_in_range)

lemma secondbin_steps_length:
  assumes "s \<in> set (secondbin_steps zv zb nz)"
  shows "length (fst s) = length zv"
  using assms by (auto simp: secondbin_steps_set length_select_variables_in_range)

lemma firstbin_unassigned:
  assumes av: "length av = n" and rv: "length rv = n" and i: "i < n"
  shows "(run_steps (firstbin_steps av rv ab rb) (replicate n (- 1)) ! i = - 1) =
         (\<not> (\<exists>a < length ab - 1. \<exists>r < length rb - 1.
               ab ! a < av ! i \<and> av ! i \<le> ab ! (a + 1) \<and> rb ! r < rv ! i \<and> rv ! i \<le> rb ! (r + 1)))"
proof -
  let ?steps = "firstbin_steps av rv ab rb"
  have len: "\<forall>s \<in> set ?steps. length (fst s) = length (replicate n (- 1 :: int))"
    using firstbin_steps_length [OF av rv] by simp
  have val: "\<forall>s \<in> set ?steps. snd s \<noteq> - 1"
    by (auto simp: firstbin_steps_set simp del: of_nat_add of_nat_mult)
  have "(run_steps ?steps (replicate n (- 1)) ! i = - 1) = (\<forall>s \<in> set ?steps. \<not> fst s ! i)"
    using run_steps_unassigned [OF len _ val, of i] i by simp
  also have "\<dots> = (\<forall>a < length ab - 1. \<forall>r < length rb - 1.
       \<not> (map2 (\<and>) (select_variables_in_range av (ab ! a) (ab ! (a + 1)))
                      (select_variables_in_range rv (rb ! r) (rb ! (r + 1)))) ! i)"
    by (simp only: firstbin_steps_set Ball_def) force
  also have "\<dots> = (\<forall>a < length ab - 1. \<forall>r < length rb - 1.
       \<not> (ab ! a < av ! i \<and> av ! i \<le> ab ! (a + 1) \<and> rb ! r < rv ! i \<and> rv ! i \<le> rb ! (r + 1)))"
    using av rv i
    by (simp add: length_select_variables_in_range nth_select_variables_in_range)
  finally show ?thesis by blast
qed

lemma secondbin_unassigned:
  assumes i: "i < length zv"
  shows "(run_steps (secondbin_steps zv zb nz) (replicate (length zv) (- 1)) ! i = - 1) =
         (\<not> (\<exists>k < nz. zb ! k < zv ! i \<and> zv ! i \<le> zb ! (k + 1)))"
proof -
  let ?steps = "secondbin_steps zv zb nz"
  have len: "\<forall>s \<in> set ?steps. length (fst s) = length (replicate (length zv) (- 1 :: int))"
    using secondbin_steps_length by simp
  have val: "\<forall>s \<in> set ?steps. snd s \<noteq> - 1"
    by (auto simp: secondbin_steps_set)
  have "(run_steps ?steps (replicate (length zv) (- 1)) ! i = - 1) = (\<forall>s \<in> set ?steps. \<not> fst s ! i)"
    using run_steps_unassigned [OF len _ val, of i] i by simp
  also have "\<dots> = (\<forall>k < nz. \<not> select_variables_in_range zv (zb ! k) (zb ! (k + 1)) ! i)"
    by (simp only: secondbin_steps_set Ball_def) force
  also have "\<dots> = (\<forall>k < nz. \<not> (zb ! k < zv ! i \<and> zv ! i \<le> zb ! (k + 1)))"
    using i by (simp add: nth_select_variables_in_range)
  finally show ?thesis by blast
qed

lemma firstbin_range:
  assumes av: "length av = n" and rv: "length rv = n" and i: "i < n"
    and ne: "run_steps (firstbin_steps av rv ab rb) (replicate n (- 1)) ! i \<noteq> - 1"
  shows "0 \<le> run_steps (firstbin_steps av rv ab rb) (replicate n (- 1)) ! i
       \<and> run_steps (firstbin_steps av rv ab rb) (replicate n (- 1)) ! i
            < int ((length ab - 1) * (length rb - 1))"
proof -
  let ?steps = "firstbin_steps av rv ab rb"
  have len: "\<forall>s \<in> set ?steps. length (fst s) = length (replicate n (- 1 :: int))"
    using firstbin_steps_length [OF av rv] by simp
  from run_steps_value [OF len, of i] i ne
  obtain s where s: "s \<in> set ?steps" and v: "run_steps ?steps (replicate n (- 1)) ! i = snd s"
    by auto
  from s obtain a r where a: "a < length ab - 1" and r: "r < length rb - 1"
    and sv: "snd s = int (a * (length rb - 1) + r)"
    by (auto simp: firstbin_steps_set)
  have "a * (length rb - 1) + r < (length ab - 1) * (length rb - 1)"
  proof -
    have "a * (length rb - 1) + r < a * (length rb - 1) + (length rb - 1)" using r by simp
    also have "\<dots> = Suc a * (length rb - 1)" by simp
    also have "\<dots> \<le> (length ab - 1) * (length rb - 1)"
      using a by (intro mult_le_mono1) simp
    finally show ?thesis .
  qed
  then have "int (a * (length rb - 1) + r) < int ((length ab - 1) * (length rb - 1))"
    by (simp only: of_nat_less_iff)
  moreover have "0 \<le> int (a * (length rb - 1) + r)"
    by (rule of_nat_0_le_iff)
  ultimately show ?thesis by (simp only: v sv)
qed

lemma secondbin_range:
  assumes i: "i < length zv"
    and ne: "run_steps (secondbin_steps zv zb nz) (replicate (length zv) (- 1)) ! i \<noteq> - 1"
  shows "0 \<le> run_steps (secondbin_steps zv zb nz) (replicate (length zv) (- 1)) ! i
       \<and> run_steps (secondbin_steps zv zb nz) (replicate (length zv) (- 1)) ! i < int nz"
proof -
  let ?steps = "secondbin_steps zv zb nz"
  have len: "\<forall>s \<in> set ?steps. length (fst s) = length (replicate (length zv) (- 1 :: int))"
    using secondbin_steps_length by simp
  from run_steps_value [OF len, of i] i ne
  obtain s where s: "s \<in> set ?steps"
    and v: "run_steps ?steps (replicate (length zv) (- 1)) ! i = snd s"
    by auto
  from s obtain k where "k < nz" and "snd s = int k"
    by (auto simp: secondbin_steps_set)
  with v show ?thesis by simp
qed


lemma bin_indices_Inr:
  assumes "bin_indices sz av rv zv zb nz = Inr (fb, sb)"
  shows "fb = run_steps (firstbin_steps av rv angular_bins (radial_bins_of sz))
                (replicate (length zv) (- 1))"
    and "sb = run_steps (secondbin_steps zv zb nz) (replicate (length zv) (- 1))"
  using assms by (simp_all add: bin_indices_def Let_def split: if_splits)

lemma bin_indices_lengths:
  assumes av: "length av = length zv" and rv: "length rv = length zv"
    and b: "bin_indices sz av rv zv zb nz = Inr (fb, sb)"
  shows "length fb = length zv" and "length sb = length zv"
proof -
  have "\<forall>s \<in> set (firstbin_steps av rv angular_bins (radial_bins_of sz)).
          length (fst s) = length (replicate (length zv) (- 1 :: int))"
    using firstbin_steps_length [OF av rv] by simp
  then show "length fb = length zv"
    using length_run_steps bin_indices_Inr(1) [OF b] by fastforce
  have "\<forall>s \<in> set (secondbin_steps zv zb nz).
          length (fst s) = length (replicate (length zv) (- 1 :: int))"
    using secondbin_steps_length by simp
  then show "length sb = length zv"
    using length_run_steps bin_indices_Inr(2) [OF b] by fastforce
qed

text \<open>
  Claim C6.  With one angular, radial and z value per reflection,
  \<open>bin_reflections_absorption_radially\<close> raises ValueError exactly when the assignment
  loops complete and leave some entry of \<open>firstbin_index\<close> or \<open>secondbin_index\<close> at
  \<open>-1\<close>.  An entry is \<open>-1\<close> after the loops exactly when no bin interval contains the
  reflection's value.  On a normal return every reflection has the combined index
  \<open>firstbin + 24 * secondbin\<close> with \<open>0 \<le> firstbin < 24\<close> and
  \<open>0 \<le> secondbin < nzbins\<close>, so the index lies within the absorption parameters.
\<close>

theorem bin_reflections_absorption_radially_spec:
  assumes av: "length angular_values = length z_value"
    and rv: "length radial_values = length z_value"
  shows "(bin_reflections_absorption_radially image_size angular_values radial_values
            z_value z_bins nzbins = Inl ValueError
          \<longleftrightarrow> (\<exists>fb sb. bin_indices image_size angular_values radial_values z_value z_bins nzbins
                          = Inr (fb, sb)
                 \<and> (\<exists>i < length z_value. fb ! i = - 1 \<or> sb ! i = - 1)))
       \<and> (\<forall>fb sb. bin_indices image_size angular_values radial_values z_value z_bins nzbins
                     = Inr (fb, sb) \<longrightarrow>
            (\<forall>i < length z_value.
               (fb ! i = - 1 \<longleftrightarrow>
                  \<not> (\<exists>a < 8. \<exists>r < 3.
                        angular_bins ! a < angular_values ! i
                      \<and> angular_values ! i \<le> angular_bins ! (a + 1)
                      \<and> radial_bins_of image_size ! r < radial_values ! i
                      \<and> radial_values ! i \<le> radial_bins_of image_size ! (r + 1)))
             \<and> (sb ! i = - 1 \<longleftrightarrow>
                  \<not> (\<exists>k < nzbins. z_bins ! k < z_value ! i \<and> z_value ! i \<le> z_bins ! (k + 1))))
          \<and> (\<forall>t. bin_reflections_absorption_radially image_size angular_values radial_values
                     z_value z_bins nzbins = Inr t \<longrightarrow>
                 length (a_bin_index t) = length z_value
               \<and> (\<forall>i < length z_value.
                     0 \<le> fb ! i \<and> fb ! i < 24 \<and> 0 \<le> sb ! i \<and> sb ! i < int nzbins
                   \<and> a_bin_index t ! i = fb ! i + sb ! i * 24
                   \<and> 0 \<le> a_bin_index t ! i \<and> a_bin_index t ! i < int (n_g_absorption t))))"
proof -
  let ?bra = "bin_reflections_absorption_radially image_size angular_values radial_values
            z_value z_bins nzbins"
  let ?bi = "bin_indices image_size angular_values radial_values z_value z_bins nzbins"
  have A: "?bra = Inl ValueError
          \<longleftrightarrow> (\<exists>fb sb. ?bi = Inr (fb, sb) \<and> (\<exists>i < length z_value. fb ! i = - 1 \<or> sb ! i = - 1))"
  proof (cases ?bi)
    case (Inl e)
    then have "e = IndexError"
      by (simp add: bin_indices_def Let_def split: if_splits)
    with Inl show ?thesis
      by (simp add: bin_reflections_absorption_radially_def)
  next
    case (Inr p)
    obtain fb sb where p: "p = (fb, sb)" by (cases p)
    from Inr p have b: "?bi = Inr (fb, sb)" by simp
    note l = bin_indices_lengths [OF av rv b]
    have "?bra = Inl ValueError \<longleftrightarrow> (count_list fb (- 1) > 0 \<or> count_list sb (- 1) > 0)"
      by (simp add: bin_reflections_absorption_radially_def b Let_def)
    also have "\<dots> \<longleftrightarrow> (\<exists>i < length z_value. fb ! i = - 1 \<or> sb ! i = - 1)"
      using l by (auto simp: count_list_pos_iff)
    finally show ?thesis using b by simp
  qed
  have B: "(fb ! i = - 1 \<longleftrightarrow>
          \<not> (\<exists>a < 8. \<exists>r < 3.
                angular_bins ! a < angular_values ! i
              \<and> angular_values ! i \<le> angular_bins ! (a + 1)
              \<and> radial_bins_of image_size ! r < radial_values ! i
              \<and> radial_values ! i \<le> radial_bins_of image_size ! (r + 1)))
        \<and> (sb ! i = - 1 \<longleftrightarrow>
          \<not> (\<exists>k < nzbins. z_bins ! k < z_value ! i \<and> z_value ! i \<le> z_bins ! (k + 1)))"
    if b: "?bi = Inr (fb, sb)" and i: "i < length z_value" for fb sb i
  proof
    show "fb ! i = - 1 \<longleftrightarrow>
          \<not> (\<exists>a < 8. \<exists>r < 3.
                angular_bins ! a < angular_values ! i
              \<and> angular_values ! i \<le> angular_bins ! (a + 1)
              \<and> radial_bins_of image_size ! r < radial_values ! i
              \<and> radial_values ! i \<le> radial_bins_of image_size ! (r + 1))"
      using firstbin_unassigned [OF av rv i, of angular_bins "radial_bins_of image_size"]
      by (simp add: bin_indices_Inr(1) [OF b] length_angular_bins length_radial_bins_of)
    show "sb ! i = - 1 \<longleftrightarrow>
          \<not> (\<exists>k < nzbins. z_bins ! k < z_value ! i \<and> z_value ! i \<le> z_bins ! (k + 1))"
      using secondbin_unassigned [OF i, of z_bins nzbins]
      by (simp add: bin_indices_Inr(2) [OF b])
  qed
  have C: "length (a_bin_index t) = length z_value
         \<and> (\<forall>i < length z_value.
               0 \<le> fb ! i \<and> fb ! i < 24 \<and> 0 \<le> sb ! i \<and> sb ! i < int nzbins
             \<and> a_bin_index t ! i = fb ! i + sb ! i * 24
             \<and> 0 \<le> a_bin_index t ! i \<and> a_bin_index t ! i < int (n_g_absorption t))"
    if b: "?bi = Inr (fb, sb)" and t: "?bra = Inr t" for fb sb t
  proof
    note l = bin_indices_lengths [OF av rv b]
    from t b have c: "\<not> (count_list fb (- 1) > 0 \<or> count_list sb (- 1) > 0)"
      and tv: "a_bin_index t = map2 (\<lambda>f s. f + s * 8 * 3) fb sb"
              "n_g_absorption t = 24 * nzbins"
      by (auto simp: bin_reflections_absorption_radially_def Let_def length_angular_bins
            length_radial_bins_of split: if_splits)
    show "length (a_bin_index t) = length z_value"
      using tv l by simp
    show "\<forall>i < length z_value.
           0 \<le> fb ! i \<and> fb ! i < 24 \<and> 0 \<le> sb ! i \<and> sb ! i < int nzbins
         \<and> a_bin_index t ! i = fb ! i + sb ! i * 24
         \<and> 0 \<le> a_bin_index t ! i \<and> a_bin_index t ! i < int (n_g_absorption t)"
    proof (intro allI impI)
      fix i assume i: "i < length z_value"
      from c l i have ne: "fb ! i \<noteq> - 1" "sb ! i \<noteq> - 1"
        by (auto simp: count_list_pos_iff)
      have f: "0 \<le> fb ! i \<and> fb ! i < 24"
        using firstbin_range [OF av rv i, of angular_bins "radial_bins_of image_size"] ne(1)
        by (simp add: bin_indices_Inr(1) [OF b] length_angular_bins length_radial_bins_of)
      have s: "0 \<le> sb ! i \<and> sb ! i < int nzbins"
        using secondbin_range [OF i, of z_bins nzbins] ne(2)
        by (simp add: bin_indices_Inr(2) [OF b])
      have a: "a_bin_index t ! i = fb ! i + sb ! i * 24"
        using tv l i by simp
      from s have "sb ! i + 1 \<le> int nzbins" by simp
      then have "(sb ! i + 1) * 24 \<le> int nzbins * 24" by (rule mult_right_mono) simp
      with f s a tv show "0 \<le> fb ! i \<and> fb ! i < 24 \<and> 0 \<le> sb ! i \<and> sb ! i < int nzbins
           \<and> a_bin_index t ! i = fb ! i + sb ! i * 24
           \<and> 0 \<le> a_bin_index t ! i \<and> a_bin_index t ! i < int (n_g_absorption t)"
        by (simp add: algebra_simps)
    qed
  qed
  from A B C show ?thesis by blast
qed

theorem bin_reflections_absorption_radially_spec_witness:
  "bin_reflections_absorption_radially (6, 8) [0] [0] [1] [0, 2] 1
     = Inr \<lparr> a_bin_index = [0], n_absorption_bins = 24, n_g_absorption = 24 \<rparr>
   \<and> bin_reflections_absorption_radially (6, 8) [0] [0] [3] [0, 2] 1 = Inl ValueError
   \<and> (\<exists>fb sb. bin_indices (6, 8) [0] [0] [3] [0, 2] 1 = Inr (fb, sb)
         \<and> (\<exists>i < length [3 :: real]. fb ! i = - 1 \<or> sb ! i = - 1))"
proof -
  have e: "bin_reflections_absorption_radially (6, 8) [0] [0] [3] [0, 2] 1 = Inl ValueError"
    by (simp add: bin_reflections_absorption_radially_def bin_indices_def run_steps_def
        firstbin_steps_def secondbin_steps_def radial_bins_of_def angular_bins_def
        set_selected_def upt_rec)
  have r: "bin_reflections_absorption_radially (6, 8) [0] [0] [1] [0, 2] 1
     = Inr \<lparr> a_bin_index = [0], n_absorption_bins = 24, n_g_absorption = 24 \<rparr>"
    by (simp add: bin_reflections_absorption_radially_def bin_indices_def run_steps_def
        firstbin_steps_def secondbin_steps_def radial_bins_of_def angular_bins_def
        set_selected_def upt_rec)
  have l: "length [0 :: real] = length [3 :: real]" by simp
  from bin_reflections_absorption_radially_spec [OF l l, of "(6, 8)" "[0, 2]" 1] e
  have "\<exists>fb sb. bin_indices (6, 8) [0] [0] [3] [0, 2] 1 = Inr (fb, sb)
         \<and> (\<exists>i < length [3 :: real]. fb ! i = - 1 \<or> sb ! i = - 1)"
    by blast
  with e r show ?thesis by blast
qed

subsection \<open>Grid extents\<close>

lemma py_max_Inr:
  assumes "py_max vs = Inr m"
  shows "m \<in> set vs \<and> (\<forall>v \<in> set vs. v \<le> m)"
proof (cases vs)
  case Nil
  with assms show ?thesis by simp
next
  case (Cons x xs)
  with assms have "fold max xs x = m" by simp
  then have "m = Max (set (x # xs))" by (simp only: Max.set_eq_fold)
  with Cons show ?thesis using Max_in [of "set vs"] Max_ge [of "set vs"] by auto
qed

lemma py_min_Inr:
  assumes "py_min vs = Inr m"
  shows "m \<in> set vs \<and> (\<forall>v \<in> set vs. m \<le> v)"
proof (cases vs)
  case Nil
  with assms show ?thesis by simp
next
  case (Cons x xs)
  with assms have "fold min xs x = m" by simp
  then have "m = Min (set (x # xs))" by (simp only: Min.set_eq_fold)
  with Cons show ?thesis using Min_in [of "set vs"] Min_le [of "set vs"] by auto
qed

lemma grid_of_n_parameters:
  assumes "grid_of vs up down = Inr g"
  shows "n_parameters g = highest_parameter_value g - lowest_parameter_value g + 1"
  using assms by (auto simp: grid_of_def err_bind_def Let_def split: sum.splits)

lemma grid_of_bounds:
  assumes g: "grid_of vs up down = Inr g" and v: "v \<in> set vs"
  shows "real_of_int (lowest_parameter_value g + down) \<le> v
       \<and> v < real_of_int (highest_parameter_value g - up + 1)"
proof -
  from g obtain mx mn where mx: "py_max vs = Inr mx" and mn: "py_min vs = Inr mn"
    and h: "highest_parameter_value g = \<lfloor>mx\<rfloor> + up"
    and l: "lowest_parameter_value g = \<lfloor>mn\<rfloor> - down"
    by (auto simp: grid_of_def err_bind_def Let_def split: sum.splits)
  from py_max_Inr [OF mx] v have "v \<le> mx" by simp
  then have hi: "v < real_of_int \<lfloor>mx\<rfloor> + 1" by linarith
  from py_min_Inr [OF mn] v have "mn \<le> v" by simp
  then have lo: "real_of_int \<lfloor>mn\<rfloor> \<le> v" by linarith
  from hi lo show ?thesis by (simp add: h l)
qed

lemma grid_of_inside_with_margin:
  assumes g: "grid_of vs (m + 1) m = Inr g"
  shows "inside_with_margin m g vs"
  unfolding inside_with_margin_def list_all_iff
proof
  fix v assume "v \<in> set vs"
  from grid_of_bounds [OF g this]
  show "real_of_int (lowest_parameter_value g + m) \<le> v
      \<and> v < real_of_int (highest_parameter_value g - m)"
    by simp
qed

lemma inside_with_margin_strict:
  assumes "inside_with_margin m g vs" and "0 < m"
  shows "strictly_inside g vs"
  using assms unfolding inside_with_margin_def strictly_inside_def list_all_iff
  by fastforce


lemma grid_of_inside_closed_open:
  assumes g: "grid_of vs 1 0 = Inr g"
  shows "inside_with_margin 0 g vs"
  using grid_of_inside_with_margin [of vs 0 g] g by simp

lemma bin_reflections_decay_inside:
  assumes "bin_reflections_decay d z_value ndbins nzbins parameterization = Inr b"
  shows "inside_with_margin 1 (res_grid b) (normalised_res_values b)
       \<and> inside_with_margin 1 (time_grid b) (normalised_time_values b)"
proof -
  from assms obtain nrv ntv rg tg where
    "grid_of nrv 2 1 = Inr rg" "grid_of ntv 2 1 = Inr tg"
    "normalised_res_values b = nrv" "normalised_time_values b = ntv"
    "res_grid b = rg" "time_grid b = tg"
    by (auto simp: bin_reflections_decay_def err_bind_def Let_def split: sum.splits if_splits)
  then show ?thesis
    using grid_of_inside_with_margin [of nrv 1 rg] grid_of_inside_with_margin [of ntv 1 tg]
    by simp
qed

lemma bin_reflections_modulation_inside:
  assumes "bin_reflections_modulation xvalues yvalues n_detector_bins parameterization = Inr b"
  shows "inside_with_margin 1 (x_grid b) (normalised_x_values b)
       \<and> inside_with_margin 1 (y_grid b) (normalised_y_values b)"
proof -
  from assms obtain nxv nyv xg yg where
    "grid_of nxv 2 1 = Inr xg" "grid_of nyv 2 1 = Inr yg"
    "normalised_x_values b = nxv" "normalised_y_values b = nyv"
    "x_grid b = xg" "y_grid b = yg"
    by (auto simp: bin_reflections_modulation_def err_bind_def Let_def
          split: sum.splits if_splits)
  then show ?thesis
    using grid_of_inside_with_margin [of nxv 1 xg] grid_of_inside_with_margin [of nyv 1 yg]
    by simp
qed

lemma bin_reflections_absorption_inside:
  assumes "bin_reflections_absorption xvalues yvalues normalised_time parameterization = Inr b"
  shows "inside_with_margin 0 (x_abs_grid b) (normalised_x_abs_values b)
       \<and> inside_with_margin 0 (y_abs_grid b) (normalised_y_abs_values b)
       \<and> inside_with_margin 0 (time_abs_grid b) normalised_time"
proof -
  from assms obtain nxv nyv xg yg tg where
    "grid_of nxv 1 0 = Inr xg" "grid_of nyv 1 0 = Inr yg" "grid_of normalised_time 1 0 = Inr tg"
    "normalised_x_abs_values b = nxv" "normalised_y_abs_values b = nyv"
    "x_abs_grid b = xg" "y_abs_grid b = yg" "time_abs_grid b = tg"
    by (auto simp: bin_reflections_absorption_def err_bind_def Let_def
          split: sum.splits if_splits)
  then show ?thesis
    using grid_of_inside_closed_open by simp
qed

lemma normalise_rotation_inside:
  assumes "normalise_rotation osc_range w z_value ri init = Inr t"
  shows "inside_with_margin 2 (term_grid t) (normalised_values t)"
proof -
  from assms obtain nv g where "grid_of nv 3 2 = Inr g" "normalised_values t = nv"
    "term_grid t = g"
    by (auto simp: normalise_rotation_def err_bind_def Let_def split: sum.splits)
  then show ?thesis using grid_of_inside_with_margin [of nv 2 g] by simp
qed

lemma initialise_scale_term_inside:
  assumes "initialise_scale_term osc_range w z_value = Inr t"
  shows "inside_with_margin 2 (term_grid t) (normalised_values t)"
  using assms normalise_rotation_inside
  by (auto simp: initialise_scale_term_def err_bind_def Let_def split: sum.splits)

lemma initialise_decay_term_inside:
  assumes "initialise_decay_term osc_range w z_value = Inr t"
  shows "inside_with_margin 2 (term_grid t) (normalised_values t)"
  using assms normalise_rotation_inside
  by (auto simp: initialise_decay_term_def err_bind_def Let_def split: sum.splits)

text \<open>
  Claim C7, as amended.  Whenever the binning succeeds, every normalised coordinate of the
  decay and modulation components of the XDS manager lies at least one gridpoint above the
  lowest and more than one below the highest gridpoint, and every normalised coordinate
  of the scale and decay terms of the aimless manager at least two above and more than
  two below: these coordinates are strictly inside the grid.  For the absorption
  component the gridpoints run from \<open>min//1\<close> to \<open>max//1 + 1\<close>, so a coordinate is at
  least the lowest and below the highest gridpoint and may lie on the lowest one.
\<close>

theorem smooth_grids_contain_observations:
  "(\<forall>b. bin_reflections_decay d z_value ndbins nzbins parameterization = Inr b \<longrightarrow>
        inside_with_margin 1 (res_grid b) (normalised_res_values b)
      \<and> strictly_inside (res_grid b) (normalised_res_values b)
      \<and> inside_with_margin 1 (time_grid b) (normalised_time_values b)
      \<and> strictly_inside (time_grid b) (normalised_time_values b))
 \<and> (\<forall>b. bin_reflections_modulation xvalues yvalues n_detector_bins parameterization = Inr b \<longrightarrow>
        inside_with_margin 1 (x_grid b) (normalised_x_values b)
      \<and> strictly_inside (x_grid b) (normalised_x_values b)
      \<and> inside_with_margin 1 (y_grid b) (normalised_y_values b)
      \<and> strictly_inside (y_grid b) (normalised_y_values b))
 \<and> (\<forall>t. initialise_scale_term osc_range one_oscillation_width z_value = Inr t \<longrightarrow>
        inside_with_margin 2 (term_grid t) (normalised_values t)
      \<and> strictly_inside (term_grid t) (normalised_values t))
 \<and> (\<forall>t. initialise_decay_term osc_range one_oscillation_width z_value = Inr t \<longrightarrow>
        inside_with_margin 2 (term_grid t) (normalised_values t)
      \<and> strictly_inside (term_grid t) (normalised_values t))
 \<and> (\<forall>b. bin_reflections_absorption xvalues yvalues normalised_time parameterization = Inr b \<longrightarrow>
        inside_with_margin 0 (x_abs_grid b) (normalised_x_abs_values b)
      \<and> inside_with_margin 0 (y_abs_grid b) (normalised_y_abs_values b)
      \<and> inside_with_margin 0 (time_abs_grid b) normalised_time)"
proof -
  have s1: "strictly_inside g vs" if "inside_with_margin 1 g vs" for g vs
    using inside_with_margin_strict [OF that] by simp
  have s2: "strictly_inside g vs" if "inside_with_margin 2 g vs" for g vs
    using inside_with_margin_strict [OF that] by simp
  have A: "inside_with_margin 1 (res_grid b) (normalised_res_values b)
      \<and> strictly_inside (res_grid b) (normalised_res_values b)
      \<and> inside_with_margin 1 (time_grid b) (normalised_time_values b)
      \<and> strictly_inside (time_grid b) (normalised_time_values b)"
    if "bin_reflections_decay d z_value ndbins nzbins parameterization = Inr b" for b
    using bin_reflections_decay_inside [OF that] s1 by blast
  have B: "inside_with_margin 1 (x_grid b) (normalised_x_values b)
      \<and> strictly_inside (x_grid b) (normalised_x_values b)
      \<and> inside_with_margin 1 (y_grid b) (normalised_y_values b)
      \<and> strictly_inside (y_grid b) (normalised_y_values b)"
    if "bin_reflections_modulation xvalues yvalues n_detector_bins parameterization = Inr b"
    for b
    using bin_reflections_modulation_inside [OF that] s1 by blast
  have C: "inside_with_margin 2 (term_grid t) (normalised_values t)
      \<and> strictly_inside (term_grid t) (normalised_values t)"
    if "initialise_scale_term osc_range one_oscillation_width z_value = Inr t" for t
    using initialise_scale_term_inside [OF that] s2 by blast
  have D: "inside_with_margin 2 (term_grid t) (normalised_values t)
      \<and> strictly_inside (term_grid t) (normalised_values t)"
    if "initialise_decay_term osc_range one_oscillation_width z_value = Inr t" for t
    using initialise_decay_term_inside [OF that] s2 by blast
  have E: "inside_with_margin 0 (x_abs_grid b) (normalised_x_abs_values b)
      \<and> inside_with_margin 0 (y_abs_grid b) (normalised_y_abs_values b)
      \<and> inside_with_margin 0 (time_abs_grid b) normalised_time"
    if "bin_reflections_absorption xvalues yvalues normalised_time parameterization = Inr b"
    for b
    using bin_reflections_absorption_inside [OF that] .
  from A B C D E show ?thesis by blast
qed


theorem smooth_grids_contain_observations_witness:
  "bin_reflections_decay [2, 4/5, 2] [0, 5, 10] 2 2 ''standard''
     = Inr \<lparr> normalised_res_values = [4 / 2629, 5254 / 2629, 4 / 2629],
             normalised_time_values = [1 / 5001, 1, 10001 / 5001],
             res_grid = \<lparr> lowest_parameter_value = - 1, highest_parameter_value = 3,
                          n_parameters = 5 \<rparr>,
             time_grid = \<lparr> lowest_parameter_value = - 1, highest_parameter_value = 3,
                           n_parameters = 5 \<rparr>,
             g_decay_initial = 1 \<rparr>
   \<and> strictly_inside \<lparr> lowest_parameter_value = - 1, highest_parameter_value = 3,
                         n_parameters = 5 \<rparr> [4 / 2629, 5254 / 2629, 4 / 2629]
   \<and> bin_reflections_modulation [0, 1, 2] [0, 1, 2] 2 ''standard''
     = Inr \<lparr> normalised_x_values = [1 / 1001, 1, 2001 / 1001],
             normalised_y_values = [1 / 1001, 1, 2001 / 1001],
             x_grid = \<lparr> lowest_parameter_value = - 1, highest_parameter_value = 3,
                        n_parameters = 5 \<rparr>,
             y_grid = \<lparr> lowest_parameter_value = - 1, highest_parameter_value = 3,
                        n_parameters = 5 \<rparr>,
             g_modulation_initial = 1 \<rparr>
   \<and> strictly_inside \<lparr> lowest_parameter_value = - 1, highest_parameter_value = 3,
                         n_parameters = 5 \<rparr> [1 / 1001, 1, 2001 / 1001]
   \<and> initialise_scale_term (0, 60) 1 [0, 5, 10]
     = Inr \<lparr> normalised_values = [1 / 15001, 5001 / 15001, 10001 / 15001],
             term_grid = \<lparr> lowest_parameter_value = - 2, highest_parameter_value = 3,
                           n_parameters = 6 \<rparr>,
             term_initial = 1 \<rparr>
   \<and> initialise_decay_term (0, 60) 1 [0, 5, 10]
     = Inr \<lparr> normalised_values = [1 / 15001, 5001 / 15001, 10001 / 15001],
             term_grid = \<lparr> lowest_parameter_value = - 2, highest_parameter_value = 3,
                           n_parameters = 6 \<rparr>,
             term_initial = 0 \<rparr>
   \<and> strictly_inside \<lparr> lowest_parameter_value = - 2, highest_parameter_value = 3,
                         n_parameters = 6 \<rparr> [1 / 15001, 5001 / 15001, 10001 / 15001]
   \<and> bin_reflections_absorption [0, 1, 2] [0, 1, 2] [1 / 5001, 1, 10001 / 5001] ''standard''
     = Inr \<lparr> normalised_x_abs_values = [2 / 1001, 2, 4002 / 1001],
             normalised_y_abs_values = [2 / 1001, 2, 4002 / 1001],
             x_abs_grid = \<lparr> lowest_parameter_value = 0, highest_parameter_value = 4,
                            n_parameters = 5 \<rparr>,
             y_abs_grid = \<lparr> lowest_parameter_value = 0, highest_parameter_value = 4,
                            n_parameters = 5 \<rparr>,
             time_abs_grid = \<lparr> lowest_parameter_value = 0, highest_parameter_value = 2,
                               n_parameters = 3 \<rparr>,
             g_absorption_initial = 1 \<rparr>
   \<and> inside_with_margin 0 \<lparr> lowest_parameter_value = 0, highest_parameter_value = 4,
                              n_parameters = 5 \<rparr> [2 / 1001, 2, 4002 / 1001]"
proof -
  have a: "bin_reflections_decay [2, 4/5, 2] [0, 5, 10] 2 2 ''standard''
     = Inr \<lparr> normalised_res_values = [4 / 2629, 5254 / 2629, 4 / 2629],
             normalised_time_values = [1 / 5001, 1, 10001 / 5001],
             res_grid = \<lparr> lowest_parameter_value = - 1, highest_parameter_value = 3,
                          n_parameters = 5 \<rparr>,
             time_grid = \<lparr> lowest_parameter_value = - 1, highest_parameter_value = 3,
                           n_parameters = 5 \<rparr>,
             g_decay_initial = 1 \<rparr>"
    by (simp add: bin_reflections_decay_def err_bind_def grid_of_def Let_def power2_eq_square)
  have b: "bin_reflections_modulation [0, 1, 2] [0, 1, 2] 2 ''standard''
     = Inr \<lparr> normalised_x_values = [1 / 1001, 1, 2001 / 1001],
             normalised_y_values = [1 / 1001, 1, 2001 / 1001],
             x_grid = \<lparr> lowest_parameter_value = - 1, highest_parameter_value = 3,
                        n_parameters = 5 \<rparr>,
             y_grid = \<lparr> lowest_parameter_value = - 1, highest_parameter_value = 3,
                        n_parameters = 5 \<rparr>,
             g_modulation_initial = 1 \<rparr>"
    by (simp add: bin_reflections_modulation_def err_bind_def grid_of_def Let_def)
  have c: "initialise_scale_term (0, 60) 1 [0, 5, 10]
     = Inr \<lparr> normalised_values = [1 / 15001, 5001 / 15001, 10001 / 15001],
             term_grid = \<lparr> lowest_parameter_value = - 2, highest_parameter_value = 3,
                           n_parameters = 6 \<rparr>,
             term_initial = 1 \<rparr>"
    by (simp add: initialise_scale_term_def adjust_rotation_interval_def normalise_rotation_def
        py_int_def err_bind_def grid_of_def Let_def)
  have d: "initialise_decay_term (0, 60) 1 [0, 5, 10]
     = Inr \<lparr> normalised_values = [1 / 15001, 5001 / 15001, 10001 / 15001],
             term_grid = \<lparr> lowest_parameter_value = - 2, highest_parameter_value = 3,
                           n_parameters = 6 \<rparr>,
             term_initial = 0 \<rparr>"
    by (simp add: initialise_decay_term_def adjust_rotation_interval_def normalise_rotation_def
        py_int_def err_bind_def grid_of_def Let_def)
  have e: "bin_reflections_absorption [0, 1, 2] [0, 1, 2] [1 / 5001, 1, 10001 / 5001] ''standard''
     = Inr \<lparr> normalised_x_abs_values = [2 / 1001, 2, 4002 / 1001],
             normalised_y_abs_values = [2 / 1001, 2, 4002 / 1001],
             x_abs_grid = \<lparr> lowest_parameter_value = 0, highest_parameter_value = 4,
                            n_parameters = 5 \<rparr>,
             y_abs_grid = \<lparr> lowest_parameter_value = 0, highest_parameter_value = 4,
                            n_parameters = 5 \<rparr>,
             time_abs_grid = \<lparr> lowest_parameter_value = 0, highest_parameter_value = 2,
                               n_parameters = 3 \<rparr>,
             g_absorption_initial = 1 \<rparr>"
    by (simp add: bin_reflections_absorption_def err_bind_def grid_of_def Let_def)
  from smooth_grids_contain_observations
    [where d = "[2, 4/5, 2]" and z_value = "[0, 5, 10]" and ndbins = 2 and nzbins = 2
       and parameterization = "''standard''" and xvalues = "[0, 1, 2]" and yvalues = "[0, 1, 2]"
       and n_detector_bins = 2 and osc_range = "(0, 60)" and one_oscillation_width = 1
       and normalised_time = "[1 / 5001, 1, 10001 / 5001]"]
    a b c d e
  show ?thesis by simp
qed

text \<open>
  With every \<open>x_value\<close> equal to 0 the normalised absorption coordinate is 2 and the
  lowest gridpoint is 2 as well: the coordinate lies on the edge of the grid, not
  strictly inside it.
\<close>

theorem absorption_grid_not_strictly_inside:
  "bin_reflections_absorption [0] [0] [1 / 2] ''standard''
     = Inr \<lparr> normalised_x_abs_values = [2], normalised_y_abs_values = [2],
             x_abs_grid = \<lparr> lowest_parameter_value = 2, highest_parameter_value = 3,
                            n_parameters = 2 \<rparr>,
             y_abs_grid = \<lparr> lowest_parameter_value = 2, highest_parameter_value = 3,
                            n_parameters = 2 \<rparr>,
             time_abs_grid = \<lparr> lowest_parameter_value = 0, highest_parameter_value = 1,
                               n_parameters = 2 \<rparr>,
             g_absorption_initial = 1 \<rparr>
   \<and> \<not> strictly_inside \<lparr> lowest_parameter_value = 2, highest_parameter_value = 3,
                           n_parameters = 2 \<rparr> [2]"
  by (simp add: bin_reflections_absorption_def err_bind_def grid_of_def Let_def
      strictly_inside_def)

subsection \<open>The rotation interval of the aimless terms\<close>

lemma adjust_rotation_interval_nonzero:
  assumes "snd osc_range \<noteq> 0"
  shows "\<exists>r. adjust_rotation_interval osc_range = Inr r"
  using assms by (simp add: adjust_rotation_interval_def Let_def)

lemma initialise_terms_fixed_nonzero:
  assumes "snd osc_range \<noteq> 0"
  shows "initialise_scale_term osc_range w z_value = initialise_scale_term_fixed osc_range w z_value"
    and "initialise_decay_term osc_range w z_value = initialise_decay_term_fixed osc_range w z_value"
  using adjust_rotation_interval_nonzero [OF assms]
  by (auto simp: initialise_scale_term_def initialise_scale_term_fixed_def
        initialise_decay_term_def initialise_decay_term_fixed_def err_bind_def Let_def)

text \<open>
  Claim C8 at the oscillation range \<open>(-60, 0)\<close>: the adjustment branch is entered and
  divides by \<open>osc_range[1] = 0\<close>, so both methods raise ZeroDivisionError, while the
  methods without the branch return the normalised values.  For every other end angle
  the two versions agree (\<open>initialise_terms_fixed_nonzero\<close>).
\<close>

theorem rotation_interval_branch_raises:
  "initialise_scale_term (- 60, 0) 1 [0] = Inl ZeroDivisionError
   \<and> initialise_decay_term (- 60, 0) 1 [0] = Inl ZeroDivisionError
   \<and> initialise_scale_term_fixed (- 60, 0) 1 [0]
       = Inr \<lparr> normalised_values = [60001 / 15001],
               term_grid = \<lparr> lowest_parameter_value = 1, highest_parameter_value = 6,
                             n_parameters = 6 \<rparr>,
               term_initial = 1 \<rparr>
   \<and> initialise_decay_term_fixed (- 60, 0) 1 [0]
       = Inr \<lparr> normalised_values = [60001 / 15001],
               term_grid = \<lparr> lowest_parameter_value = 1, highest_parameter_value = 6,
                             n_parameters = 6 \<rparr>,
               term_initial = 0 \<rparr>"
  by (simp add: initialise_scale_term_def initialise_decay_term_def
      initialise_scale_term_fixed_def initialise_decay_term_fixed_def
      adjust_rotation_interval_def normalise_rotation_def err_bind_def grid_of_def Let_def)

subsection \<open>Combining the component scales\<close>

lemma length_np_prod_axis0:
  "rows \<noteq> [] \<Longrightarrow> \<forall>r \<in> set rows. length r = n \<Longrightarrow> length (np_prod_axis0 rows) = n"
  by (induction rows rule: np_prod_axis0.induct) simp_all

lemma length_np_sum_axis0:
  "rows \<noteq> [] \<Longrightarrow> \<forall>r \<in> set rows. length r = n \<Longrightarrow> length (np_sum_axis0 rows) = n"
  by (induction rows rule: np_sum_axis0.induct) simp_all

lemma nth_np_prod_axis0:
  "rows \<noteq> [] \<Longrightarrow> \<forall>r \<in> set rows. length r = n \<Longrightarrow> i < n \<Longrightarrow>
   np_prod_axis0 rows ! i = prod_list (map (\<lambda>r. r ! i) rows)"
proof (induction rows rule: np_prod_axis0.induct)
  case 1
  then show ?case by simp
next
  case (2 r)
  then show ?case by simp
next
  case (3 r v va)
  then have "length (np_prod_axis0 (v # va)) = n"
    by (intro length_np_prod_axis0) simp_all
  with 3 show ?case by simp
qed

lemma nth_np_sum_axis0:
  "rows \<noteq> [] \<Longrightarrow> \<forall>r \<in> set rows. length r = n \<Longrightarrow> i < n \<Longrightarrow>
   np_sum_axis0 rows ! i = sum_list (map (\<lambda>r. r ! i) rows)"
proof (induction rows rule: np_sum_axis0.induct)
  case 1
  then show ?case by simp
next
  case (2 r)
  then show ?case by simp
next
  case (3 r v va)
  then have "length (np_sum_axis0 (v # va)) = n"
    by (intro length_np_sum_axis0) simp_all
  with 3 show ?case by simp
qed

lemma expand_inverse_scale_factor_nth:
  assumes "length m = n" "length d = n" "length a = n" "i < n"
  shows "expand_inverse_scale_factor p m d a ! i =
           (if p = ''log'' then exp (m ! i + d ! i + a ! i) else m ! i * d ! i * a ! i)"
  using assms by (simp add: expand_inverse_scale_factor_def flex_mul_def flex_add_def)

lemma expand_inverse_scale_factor_length:
  assumes "length m = n" "length d = n" "length a = n"
  shows "length (expand_inverse_scale_factor p m d a) = n"
  using assms by (simp add: expand_inverse_scale_factor_def flex_mul_def flex_add_def)


lemma collect_constant_g_values_nonempty:
  assumes d: "distinct (map fst gp)" and l: "1 < length gp"
  shows "collect_constant_g_values gp param_name \<noteq> []"
proof
  assume "collect_constant_g_values gp param_name = []"
  then have "\<forall>k \<in> set (map fst gp). k = param_name"
    by (auto simp: collect_constant_g_values_def filter_empty_conv)
  then have "set (map fst gp) \<subseteq> {param_name}" by auto
  then have "card (set (map fst gp)) \<le> card {param_name}"
    by (intro card_mono) simp_all
  with distinct_card [OF d] l show False by simp
qed

lemma collect_constant_g_values_lengths:
  assumes "\<forall>c \<in> snd ` set gp. length (get_scales_of_reflections c) = m"
  shows "\<forall>r \<in> set (collect_constant_g_values gp param_name). length r = m"
  using assms by (auto simp: collect_constant_g_values_def)

lemma set_up_minimisation_Inr:
  assumes "param_name \<in> fst ` set gp"
  shows "\<exists>s. set_up_minimisation gp parameterization previous param_name = Inr s
           \<and> active_parameterisation s = param_name
           \<and> n_active_params s = length (active_x s)
           \<and> constant_g_values s =
               (if parameterization = ''standard''
                then Some (np_prod_axis0 (collect_constant_g_values gp param_name))
                else if parameterization = ''log''
                then Some (np_sum_axis0 (collect_constant_g_values gp param_name))
                else previous)"
proof -
  from assms have "filter (\<lambda>(p_type, scalefactor). param_name = p_type) gp \<noteq> []"
    by (auto simp: filter_empty_conv)
  then obtain a as where "filter (\<lambda>(p_type, scalefactor). param_name = p_type) gp = a # as"
    by (cases "filter (\<lambda>(p_type, scalefactor). param_name = p_type) gp") auto
  then show ?thesis
    by (simp add: set_up_minimisation_def Let_def)
qed

subsection \<open>Fixed-Ih target function\<close>

text \<open>
  Claim C5 as stated: with the inverse scale factor 0.909 the second residual is
  \<open>10 - 0.909 * 11 = 0.001\<close>, not 0.
\<close>

theorem compute_residuals_at_0909:
  "fst (compute_residuals \<lparr> inverse_scale_factors = [1, 0.909, 1], intensities = [10, 10, 12],
                             Ih_values = [11, 11, 11], weights = [1, 1, 1] \<rparr>)
     = [- 1, 1 / 1000, 1]
   \<and> fst (compute_residuals \<lparr> inverse_scale_factors = [1, 0.909, 1], intensities = [10, 10, 12],
                               Ih_values = [11, 11, 11], weights = [1, 1, 1] \<rparr>)
     \<noteq> [- 1, 0, 1]"
  by (simp add: compute_residuals_def calculate_residuals_def)

text \<open>
  Claim C5, as amended.  With the inverse scale factors \<open>[1.0, 1.0/1.1, 1.0]\<close> of the mock
  Ih table, constant \<open>Ih = 11\<close>, intensities \<open>[10, 10, 12]\<close> and unit weights,
  \<open>compute_residuals\<close> returns exactly the residuals \<open>[-1, 0, 1]\<close> (and the unit weights).
\<close>

theorem compute_residuals_mock_table:
  "compute_residuals \<lparr> inverse_scale_factors = [1, 1 / 1.1, 1], intensities = [10, 10, 12],
                        Ih_values = [11, 11, 11], weights = [1, 1, 1] \<rparr>
     = ([- 1, 0, 1], [1, 1, 1])"
  by (simp add: compute_residuals_def calculate_residuals_def)

subsection \<open>Reflection tables\<close>

lemma keys_select: "keys (select t sel) = keys t"
  by (simp add: keys_def select_def comp_def)

lemma keys_select_indices: "keys (select_indices t idx) = keys t"
  by (simp add: keys_def select_indices_def comp_def)

lemma set_keys_setitem: "set (keys (setitem t k c)) = insert k (set (keys t))"
  using AList.dom_update [of k c t] by (simp add: keys_def setitem_def)

lemma set_keys_delitem: "set (keys (delitem t k)) = set (keys t) - {k}"
  by (simp add: keys_def delitem_def AList.delete_keys)

lemma map_of_setitem: "map_of (setitem t k c) = (map_of t)(k \<mapsto> c)"
  by (simp add: setitem_def AList.update_conv')

lemma map_of_select: "map_of (select t sel) k = map_option (\<lambda>c. select_rows c sel) (map_of t k)"
  by (induction t) (auto simp: select_def)

lemma map_of_select_indices:
  "map_of (select_indices t idx) k = map_option (\<lambda>c. take_rows c idx) (map_of t k)"
  by (induction t) (auto simp: select_indices_def)

lemma select_rows_Nil [simp]: "select_rows [] sel = []"
  by (simp add: select_rows_def)

lemma select_rows_Cons:
  "select_rows (x # xs) (s # sel) = (if s then x # select_rows xs sel else select_rows xs sel)"
  by (simp add: select_rows_def)

lemma select_rows_take_rows:
  "length sel = length xs \<Longrightarrow>
   select_rows xs sel = take_rows xs (filter (\<lambda>i. sel ! i) [0 ..< length xs])"
proof (induction xs arbitrary: sel rule: rev_induct)
  case Nil
  then show ?case by (simp add: take_rows_def)
next
  case (snoc x xs)
  then obtain s sel' where sel: "sel = sel' @ [s]" and l: "length sel' = length xs"
    by (cases sel rule: rev_cases) auto
  have a: "select_rows (xs @ [x]) (sel' @ [s]) = select_rows xs sel' @ (if s then [x] else [])"
    using l by (simp add: select_rows_def)
  have b: "filter (\<lambda>i. (sel' @ [s]) ! i) [0 ..< length xs] = filter (\<lambda>i. sel' ! i) [0 ..< length xs]"
    using l by (intro filter_cong) (auto simp: nth_append)
  have c: "take_rows (xs @ [x]) (filter (\<lambda>i. sel' ! i) [0 ..< length xs])
         = take_rows xs (filter (\<lambda>i. sel' ! i) [0 ..< length xs])"
    by (auto simp: take_rows_def nth_append)
  show ?case
    using snoc.IH [OF l] a b c l by (simp add: sel take_rows_def nth_append)
qed

lemma take_rows_take_rows:
  "set b \<subseteq> {..< length a} \<Longrightarrow> take_rows (take_rows xs a) b = take_rows xs (take_rows a b)"
  by (auto simp: take_rows_def)

subsection \<open>Extraction of the scaling set and the Ih estimate\<close>

lemma map_snd_filter_zip_map:
  "map snd (filter (\<lambda>p. P (fst p)) (zip xs (map f xs))) = map f (filter P xs)"
  by (induction xs) simp_all

lemma Ih_sums_filter:
  fixes obs :: "(real \<times> real \<times> real) list"
  shows "sum_list (map (\<lambda>(g, I, w). w) (filter (\<lambda>(g, I, w). w \<noteq> 0) obs))
     = sum_list (map (\<lambda>(g, I, w). w) obs)"
    and "sum_list (map (\<lambda>(g, I, w). g * I * w) (filter (\<lambda>(g, I, w). w \<noteq> 0) obs))
     = sum_list (map (\<lambda>(g, I, w). g * I * w) obs)"
    and "sum_list (map (\<lambda>(g, I, w). g * g * w) (filter (\<lambda>(g, I, w). w \<noteq> 0) obs))
     = sum_list (map (\<lambda>(g, I, w). g * g * w) obs)"
  by (induction obs) auto

lemma Ih_of_group_filter:
  "Ih_of_group (filter (\<lambda>(g, I, w). w \<noteq> 0) obs) = Ih_of_group obs"
  by (simp add: Ih_of_group_def Ih_sums_filter)

lemma calc_Ih_rows_zero_weight:
  "calc_Ih_rows (filter (\<lambda>r. snd (snd (snd r)) \<noteq> 0) rows)
     = map snd (filter (\<lambda>p. snd (snd (snd (fst p))) \<noteq> 0) (zip rows (calc_Ih_rows rows)))"
proof -
  let ?P = "\<lambda>r :: (int \<times> int \<times> int) \<times> real \<times> real \<times> real. snd (snd (snd r)) \<noteq> 0"
  have g: "Ih_of_group (map snd (filter (\<lambda>r'. fst r' = h) (filter ?P rows)))
         = Ih_of_group (map snd (filter (\<lambda>r'. fst r' = h) rows))" for h
  proof -
    have "map snd (filter (\<lambda>r'. fst r' = h) (filter ?P rows))
        = filter (\<lambda>(g, I, w). w \<noteq> 0) (map snd (filter (\<lambda>r'. fst r' = h) rows))"
      by (induction rows) auto
    then show ?thesis by (simp only: Ih_of_group_filter)
  qed
  have "calc_Ih_rows (filter ?P rows)
      = map (\<lambda>r. Ih_of_group (map snd (filter (\<lambda>r'. fst r' = fst r) rows))) (filter ?P rows)"
    unfolding calc_Ih_rows_def by (simp only: g)
  also have "\<dots> = map snd (filter (\<lambda>p. ?P (fst p)) (zip rows (calc_Ih_rows rows)))"
    unfolding calc_Ih_rows_def
    by (rule map_snd_filter_zip_map [of ?P rows, symmetric])
  finally show ?thesis .
qed


text \<open>
  Claim C4.  When every column has one entry per weight,
  \<open>extract_reflections_for_scaling\<close> returns the selection of the rows whose weight is
  greater than zero, together with the weights computed again for that selection: the
  table has the same keys, and every column consists of the entries at the positions of
  positive weight, in order.  For the Ih estimator, the observations of zero weight
  contribute nothing: estimating Ih without them gives every remaining reflection the
  value it gets when they are present.
\<close>

theorem extract_reflections_for_scaling_spec:
  assumes cols: "\<forall>c \<in> snd ` set t. length c = length (get_weights co t)"
  shows "fst (extract_reflections_for_scaling co t)
           = select t (map (\<lambda>w. 0 < w) (get_weights co t))
       \<and> snd (extract_reflections_for_scaling co t)
           = get_weights co (fst (extract_reflections_for_scaling co t))
       \<and> keys (fst (extract_reflections_for_scaling co t)) = keys t
       \<and> (\<forall>k c. map_of t k = Some c \<longrightarrow>
             map_of (fst (extract_reflections_for_scaling co t)) k
               = Some (take_rows c (filter (\<lambda>i. 0 < get_weights co t ! i)
                                      [0 ..< length (get_weights co t)])))
       \<and> (\<forall>rows. calc_Ih_rows (filter (\<lambda>r. snd (snd (snd r)) \<noteq> 0) rows)
             = map snd (filter (\<lambda>p. snd (snd (snd (fst p))) \<noteq> 0)
                          (zip rows (calc_Ih_rows rows))))"
proof -
  let ?w = "get_weights co t"
  let ?sel = "map (\<lambda>w. 0 < w) ?w"
  have A: "fst (extract_reflections_for_scaling co t) = select t ?sel"
    by (simp add: extract_reflections_for_scaling_def update_weights_for_scaling_def Let_def)
  have B: "snd (extract_reflections_for_scaling co t)
           = get_weights co (fst (extract_reflections_for_scaling co t))"
    by (simp add: extract_reflections_for_scaling_def update_weights_for_scaling_def Let_def)
  have C: "keys (fst (extract_reflections_for_scaling co t)) = keys t"
    by (simp add: A keys_select)
  have D: "map_of (fst (extract_reflections_for_scaling co t)) k
               = Some (take_rows c (filter (\<lambda>i. 0 < ?w ! i) [0 ..< length ?w]))"
    if k: "map_of t k = Some c" for k c
  proof -
    from k have "c \<in> snd ` set t" by (force dest: map_of_SomeD)
    with cols have l: "length ?sel = length c" by auto
    have "filter (\<lambda>i. ?sel ! i) [0 ..< length c] = filter (\<lambda>i. 0 < ?w ! i) [0 ..< length c]"
      using l by (intro filter_cong) auto
    with select_rows_take_rows [OF l] l k show ?thesis
      by (simp add: A map_of_select)
  qed
  from A B C D calc_Ih_rows_zero_weight show ?thesis by blast
qed

theorem extract_reflections_for_scaling_spec_witness:
  "extract_reflections_for_scaling example_collaborators
     [(''d'', [Double (4 / 5), Double 2, Double 2]),
      (''variance'', [Double 4, Double 25, Double 100])]
   = ([(''d'', [Double 2, Double 2]), (''variance'', [Double 25, Double 100])],
      [1 / 25, 1 / 100])
   \<and> get_weights example_collaborators
       [(''d'', [Double (4 / 5), Double 2, Double 2]),
        (''variance'', [Double 4, Double 25, Double 100])] = [0, 1 / 25, 1 / 100]
   \<and> map_of (fst (extract_reflections_for_scaling example_collaborators
          [(''d'', [Double (4 / 5), Double 2, Double 2]),
           (''variance'', [Double 4, Double 25, Double 100])])) ''variance''
       = Some (take_rows [Double 4, Double 25, Double 100] [1, 2])"
proof -
  let ?t = "[(''d'', [Double (4 / 5), Double 2, Double 2]),
             (''variance'', [Double 4, Double 25, Double 100])]"
  have w: "get_weights example_collaborators ?t = [0, 1 / 25, 1 / 100]"
    by (simp add: example_collaborators_def example_weights_def get_doubles_def getitem_def
        err_bind_def)
  have h: "\<forall>c \<in> snd ` set ?t. length c = length (get_weights example_collaborators ?t)"
    by (simp add: w)
  have e: "extract_reflections_for_scaling example_collaborators ?t
   = ([(''d'', [Double 2, Double 2]), (''variance'', [Double 25, Double 100])],
      [1 / 25, 1 / 100])"
    by (simp add: extract_reflections_for_scaling_def update_weights_for_scaling_def w
        select_def select_rows_def Let_def)
       (simp add: example_collaborators_def example_weights_def get_doubles_def getitem_def
        err_bind_def)
  have m: "map_of ?t ''variance'' = Some [Double 4, Double 25, Double 100]"
    by simp
  have f: "filter (\<lambda>i. 0 < get_weights example_collaborators ?t ! i)
             [0 ..< length (get_weights example_collaborators ?t)] = [1, 2]"
    unfolding w by (simp add: upt_rec)
  from extract_reflections_for_scaling_spec [OF h] m
  have "map_of (fst (extract_reflections_for_scaling example_collaborators ?t)) ''variance''
       = Some (take_rows [Double 4, Double 25, Double 100]
                 (filter (\<lambda>i. 0 < get_weights example_collaborators ?t ! i)
                    [0 ..< length (get_weights example_collaborators ?t)]))"
    by blast
  then have "map_of (fst (extract_reflections_for_scaling example_collaborators ?t)) ''variance''
       = Some (take_rows [Double 4, Double 25, Double 100] [1, 2])"
    by (simp only: f)
  with e w show ?thesis by (intro conjI)
qed

subsection \<open>Column sets: construction, expansion and cleaning\<close>

lemma err_bind_Inr:
  assumes "err_bind r f = Inr y"
  obtains v where "r = Inr v" and "f v = Inr y"
  using assms by (cases r) (simp_all add: err_bind_def)

lemma select_optimal_intensities_keys:
  assumes "select_optimal_intensities opts t = Inr (opts', t')"
  shows "set (keys t) \<subseteq> set (keys t')"
    and "set (keys t') \<subseteq> set (keys t) \<union> {''intensity'', ''variance''}"
proof -
  let ?o = "if opt_integration_method opts = ''combine''
            then opts \<lparr> opt_integration_method := ''prf'' \<rparr> else opts"
  let ?m = "opt_integration_method ?o"
  have "set (keys t) \<subseteq> set (keys t')
      \<and> set (keys t') \<subseteq> set (keys t) \<union> {''intensity'', ''variance''}"
  proof (cases "?m = ''sum'' \<or> ?m = ''prf''")
    case False
    with assms have "t' = t"
      by (auto simp: select_optimal_intensities_def Let_def split: if_splits)
    then show ?thesis by auto
  next
    case True
    with assms have
      "err_bind (get_doubles t (''intensity.'' @ ?m @ ''.value'')) (\<lambda>v.
       err_bind (get_doubles t ''lp'') (\<lambda>lp.
       err_bind (get_doubles t ''dqe'') (\<lambda>dqe.
       let t = setitem t ''intensity'' (map Double (flex_div (flex_mul v lp) dqe))
       in
       err_bind (get_doubles t (''intensity.'' @ ?m @ ''.variance'')) (\<lambda>var.
         Inr (?o,
              setitem t ''variance''
                (map Double (flex_div (flex_mul var (flex_mul lp lp))
                                      (flex_mul dqe dqe)))))))) = Inr (opts', t')"
      by (simp add: select_optimal_intensities_def Let_def split: if_splits)
    then obtain v lp dqe var where
      "t' = setitem (setitem t ''intensity'' (map Double (flex_div (flex_mul v lp) dqe)))
              ''variance'' (map Double (flex_div (flex_mul var (flex_mul lp lp))
                                      (flex_mul dqe dqe)))"
      by (auto simp: Let_def elim!: err_bind_Inr)
    then show ?thesis by (auto simp: set_keys_setitem)
  qed
  then show "set (keys t) \<subseteq> set (keys t')"
    and "set (keys t') \<subseteq> set (keys t) \<union> {''intensity'', ''variance''}"
    by simp_all
qed

lemma write_working_columns_keys:
  "set (keys (write_working_columns rt xyz))
     = set (keys rt) \<union> {''x_value'', ''y_value'', ''z_value'', ''inverse_scale_factor'',
                          ''Ih_values''}"
  by (auto simp: write_working_columns_def Let_def set_keys_setitem)

lemma map_indices_to_asu_keys:
  assumes "map_indices_to_asu co t = Inr (t', s)"
  shows "set (keys t') = insert ''asu_miller_index'' (set (keys t))" and "keys s = keys t'"
  using assms
  by (auto simp: map_indices_to_asu_def Let_def set_keys_setitem keys_select_indices
        elim!: err_bind_Inr)

lemma Data_Manager_init_keys:
  assumes "Data_Manager_init co reflections integrated opts = Inr dm"
  shows "initial_keys dm = keys reflections"
    and "set (keys reflections) \<union> {''inverse_scale_factor'', ''Ih_values''}
           \<subseteq> set (keys (reflection_table dm))"
    and "keys (sorted_reflections dm) = keys (reflection_table dm)"
proof -
  let ?rt0 = "select reflections integrated"
  from assms obtain xyz o1 rt1 rt2 s where
    soi: "select_optimal_intensities opts (write_working_columns ?rt0 xyz) = Inr (o1, rt1)"
    and asu: "map_indices_to_asu co rt1 = Inr (rt2, s)"
    and dm: "initial_keys dm = keys ?rt0" "reflection_table dm = rt2" "sorted_reflections dm = s"
    by (auto simp: Data_Manager_init_def Let_def elim!: err_bind_Inr)
  show "initial_keys dm = keys reflections"
    by (simp add: dm keys_select)
  from select_optimal_intensities_keys(1) [OF soi]
  have "set (keys reflections) \<union> {''inverse_scale_factor'', ''Ih_values''} \<subseteq> set (keys rt1)"
    by (auto simp: write_working_columns_keys keys_select)
  with map_indices_to_asu_keys(1) [OF asu]
  show "set (keys reflections) \<union> {''inverse_scale_factor'', ''Ih_values''}
           \<subseteq> set (keys (reflection_table dm))"
    by (auto simp: dm)
  show "keys (sorted_reflections dm) = keys (reflection_table dm)"
    using map_indices_to_asu_keys(2) [OF asu] by (simp add: dm)
qed


lemma fold_setitem_keys:
  "set (keys (fold (\<lambda>kc t. setitem t (fst kc) (snd kc)) cols t)) = set (keys t) \<union> fst ` set cols"
  by (induction cols arbitrary: t) (auto simp: set_keys_setitem)

lemma XDS_bin_reflections_decay_keys:
  assumes "XDS_bin_reflections_decay opts t = Inr t'"
  shows "set (keys t') = set (keys t) \<union> {''normalised_res_values'', ''normalised_time_values''}"
  using assms
  by (auto simp: XDS_bin_reflections_decay_def set_keys_setitem elim!: err_bind_Inr)

lemma XDS_bin_reflections_absorption_keys:
  assumes "XDS_bin_reflections_absorption opts t = Inr t'"
  shows "set (keys t')
           = set (keys t) \<union> {''normalised_x_abs_values'', ''normalised_y_abs_values''}"
  using assms
  by (auto simp: XDS_bin_reflections_absorption_def set_keys_setitem elim!: err_bind_Inr)

lemma XDS_bin_reflections_modulation_keys:
  assumes "XDS_bin_reflections_modulation opts t = Inr t'"
  shows "set (keys t') = set (keys t) \<union> {''normalised_x_values'', ''normalised_y_values''}"
  using assms
  by (auto simp: XDS_bin_reflections_modulation_def set_keys_setitem elim!: err_bind_Inr)

lemma XDS_initialise_scale_factors_keys:
  assumes "XDS_initialise_scale_factors opts t = Inr t'"
  shows "set (keys t')
           = set (keys t) \<union> {''normalised_res_values'', ''normalised_time_values'',
                ''normalised_x_abs_values'', ''normalised_y_abs_values'',
                ''normalised_x_values'', ''normalised_y_values''}"
proof -
  from assms obtain t1 t2 where "XDS_bin_reflections_decay opts t = Inr t1"
    "XDS_bin_reflections_absorption opts t1 = Inr t2"
    "XDS_bin_reflections_modulation opts t2 = Inr t'"
    by (auto simp: XDS_initialise_scale_factors_def elim!: err_bind_Inr)
  then show ?thesis
    using XDS_bin_reflections_decay_keys XDS_bin_reflections_absorption_keys
      XDS_bin_reflections_modulation_keys
    by auto
qed

lemma XDS_Data_Manager_init_keys:
  assumes "XDS_Data_Manager_init co reflections integrated opts = Inr dm"
  shows "initial_keys dm = keys reflections"
    and "set (keys reflections) \<union> {''inverse_scale_factor'', ''Ih_values''}
           \<subseteq> set (keys (reflection_table dm))"
    and "\<exists>t. set (keys (sorted_reflections dm))
           = set (keys (reflection_table dm))
             \<union> {''normalised_res_values'', ''normalised_time_values'',
                ''normalised_x_abs_values'', ''normalised_y_abs_values'',
                ''normalised_x_values'', ''normalised_y_values'', ''wilson_outlier_flag''}
             \<union> fst ` set (wilson_side_columns co t)"
proof -
  from assms obtain dm0 t1 where
    base: "Data_Manager_init co reflections integrated opts = Inr dm0"
    and isf: "XDS_initialise_scale_factors (scaling_opts dm0) (sorted_reflections dm0) = Inr t1"
    and dm: "initial_keys dm = initial_keys dm0" "reflection_table dm = reflection_table dm0"
      "sorted_reflections dm
         = setitem (fold (\<lambda>kc t. setitem t (fst kc) (snd kc)) (wilson_side_columns co t1) t1)
             ''wilson_outlier_flag'' (wilson_flags co t1)"
    by (auto simp: XDS_Data_Manager_init_def Let_def elim!: err_bind_Inr)
  note b = Data_Manager_init_keys [OF base]
  show "initial_keys dm = keys reflections" by (simp add: dm b)
  show "set (keys reflections) \<union> {''inverse_scale_factor'', ''Ih_values''}
           \<subseteq> set (keys (reflection_table dm))"
    using b(2) by (simp add: dm)
  have "set (keys (sorted_reflections dm))
           = set (keys (reflection_table dm))
             \<union> {''normalised_res_values'', ''normalised_time_values'',
                ''normalised_x_abs_values'', ''normalised_y_abs_values'',
                ''normalised_x_values'', ''normalised_y_values'', ''wilson_outlier_flag''}
             \<union> fst ` set (wilson_side_columns co t1)"
    using XDS_initialise_scale_factors_keys [OF isf] b(3)
    by (auto simp: dm set_keys_setitem fold_setitem_keys)
  then show "\<exists>t. set (keys (sorted_reflections dm))
           = set (keys (reflection_table dm))
             \<union> {''normalised_res_values'', ''normalised_time_values'',
                ''normalised_x_abs_values'', ''normalised_y_abs_values'',
                ''normalised_x_values'', ''normalised_y_values'', ''wilson_outlier_flag''}
             \<union> fst ` set (wilson_side_columns co t)"
    by blast
qed

lemma expand_scales_to_all_reflections_keys:
  assumes "expand_scales_to_all_reflections co dm = Inr dm'"
  shows "initial_keys dm' = initial_keys dm"
    and "reflection_table dm' = reflection_table dm"
    and "set (keys (sorted_reflections dm'))
           = set (keys (sorted_reflections dm)) \<union> {''inverse_scale_factor'', ''Ih_values''}"
  using assms
  by (auto simp: expand_scales_to_all_reflections_def Let_def set_keys_setitem
        elim!: err_bind_Inr)

lemma fold_delitem_keys:
  "set (keys (fold (\<lambda>key t. delitem t key) ks t)) = set (keys t) - set ks"
  by (induction ks arbitrary: t) (auto simp: set_keys_delitem)

lemma fold_delitem_if_keys:
  "set (keys (fold (\<lambda>key t. if P key then delitem t key else t) ks t))
     = set (keys t) - {k \<in> set ks. P k}"
  by (induction ks arbitrary: t) (auto simp: set_keys_delitem)

lemma clean_with_keys:
  "set (keys (sorted_reflections (clean_with added dm)))
     = (set (keys (sorted_reflections dm))
          - (set (keys (reflection_table dm))
               - (set (initial_keys dm) \<union> {''inverse_scale_factor''})))
       - set added"
  by (auto simp: clean_with_def Let_def fold_delitem_keys fold_delitem_if_keys)


lemma doubles_map_Double [simp]: "doubles (map Double xs) = Inr xs"
  by (induction xs) (simp_all add: err_bind_def)

lemma get_doubles_setitem_same [simp]:
  "get_doubles (setitem t k (map Double xs)) k = Inr xs"
  by (simp add: get_doubles_def getitem_def map_of_setitem err_bind_def)

lemma get_doubles_setitem_other:
  "k' \<noteq> k \<Longrightarrow> get_doubles (setitem t k c) k' = get_doubles t k'"
  by (simp add: get_doubles_def getitem_def map_of_setitem)

lemma get_millers_setitem_other:
  "k' \<noteq> k \<Longrightarrow> get_millers (setitem t k c) k' = get_millers t k'"
  by (simp add: get_millers_def getitem_def map_of_setitem)

lemma expand_succeeds:
  assumes "expandable dm"
  shows "\<exists>dm'. expand_scales_to_all_reflections co dm = Inr dm'"
proof -
  from assms obtain nx ny nr nt nxa nya I asu where
    "get_doubles (sorted_reflections dm) ''normalised_x_values'' = Inr nx"
    "get_doubles (sorted_reflections dm) ''normalised_y_values'' = Inr ny"
    "get_doubles (sorted_reflections dm) ''normalised_res_values'' = Inr nr"
    "get_doubles (sorted_reflections dm) ''normalised_time_values'' = Inr nt"
    "get_doubles (sorted_reflections dm) ''normalised_x_abs_values'' = Inr nxa"
    "get_doubles (sorted_reflections dm) ''normalised_y_abs_values'' = Inr nya"
    "get_doubles (sorted_reflections dm) ''intensity'' = Inr I"
    "get_millers (sorted_reflections dm) ''asu_miller_index'' = Inr asu"
    by (auto simp: expandable_def readable_doubles_def split: sum.splits)
  then show ?thesis
    by (simp add: expand_scales_to_all_reflections_def single_Ih_table_def Let_def err_bind_def
        get_doubles_setitem_other get_millers_setitem_other)
qed

text \<open>
  Claim C1, as amended.  For an XDS data manager built from an input table none of whose
  column names is in the cleaning list \<open>added_columns\<close>, and whose collaborators write
  only columns named in that list, \<open>expand_scales_to_all_reflections\<close> followed by
  \<open>clean_reflection_table\<close> leaves the sorted table with exactly the input columns and
  \<open>inverse_scale_factor\<close>; the cleaning itself never fails.  \<open>Ih_values\<close> is kept only
  when it is an input column.  The cleaning of the aimless data manager removes, from
  any state, the keys of the reflection table that are not initial keys and the names of
  its own list.
\<close>

theorem clean_reflection_table_round_trip:
  assumes init: "XDS_Data_Manager_init co reflections integrated opts = Inr dm0"
    and expand: "expand_scales_to_all_reflections co dm0 = Inr dm1"
    and fresh: "set (keys reflections) \<inter> set XDS_added_columns = {}"
    and side: "\<forall>t. fst ` set (wilson_side_columns co t) \<subseteq> set XDS_added_columns"
  shows "set (keys (sorted_reflections (XDS_clean_reflection_table dm1)))
           = set (keys reflections) \<union> {''inverse_scale_factor''}
       \<and> (\<forall>dm. set (keys (sorted_reflections (aimless_clean_reflection_table dm)))
             = (set (keys (sorted_reflections dm))
                  - (set (keys (reflection_table dm))
                       - (set (initial_keys dm) \<union> {''inverse_scale_factor''})))
               - set aimless_added_columns)"
proof
  note i = XDS_Data_Manager_init_keys [OF init]
  note e = expand_scales_to_all_reflections_keys [OF expand]
  define N where "N = {''normalised_res_values'', ''normalised_time_values'',
                ''normalised_x_abs_values'', ''normalised_y_abs_values'',
                ''normalised_x_values'', ''normalised_y_values'', ''wilson_outlier_flag''}"
  define J where "J = {''inverse_scale_factor'', ''Ih_values''}"
  define A where "A = set XDS_added_columns"
  define KR where "KR = set (keys (reflection_table dm0))"
  define KS0 where "KS0 = set (keys (sorted_reflections dm0))"
  define KS where "KS = set (keys (sorted_reflections dm1))"
  define K where "K = set (keys reflections)"
  define I where "I = K \<union> {''inverse_scale_factor''}"
  from i(3) obtain t where ks: "KS0 = KR \<union> N \<union> fst ` set (wilson_side_columns co t)"
    unfolding N_def KS0_def KR_def by blast
  define W where "W = fst ` set (wilson_side_columns co t)"
  have ks': "KS0 = KR \<union> N \<union> W" using ks by (simp add: W_def)
  have e3: "KS = KS0 \<union> J" using e(3) by (simp add: KS_def KS0_def J_def)
  have kj: "K \<union> J \<subseteq> KR" using i(2) by (simp add: K_def J_def KR_def)
  have ij: "I \<subseteq> K \<union> J" by (auto simp: I_def J_def)
  have na: "N \<subseteq> A" by (simp add: N_def A_def XDS_added_columns_def)
  have wa: "W \<subseteq> A" using side by (simp add: W_def A_def)
  have "''inverse_scale_factor'' \<notin> A" by (simp add: A_def XDS_added_columns_def)
  with fresh have dis: "I \<inter> A = {}" by (auto simp: I_def K_def A_def)
  have "set (keys (sorted_reflections (XDS_clean_reflection_table dm1)))
          = (KS - (KR - I)) - A"
    by (simp add: XDS_clean_reflection_table_def clean_with_keys e(1) e(2) i(1)
        KS_def KR_def I_def K_def A_def)
  also have "\<dots> = I"
    using ks' e3 kj ij na wa dis by blast
  also have "I = set (keys reflections) \<union> {''inverse_scale_factor''}"
    by (simp add: I_def K_def)
  finally show "set (keys (sorted_reflections (XDS_clean_reflection_table dm1)))
           = set (keys reflections) \<union> {''inverse_scale_factor''}" .
next
  show "\<forall>dm. set (keys (sorted_reflections (aimless_clean_reflection_table dm)))
             = (set (keys (sorted_reflections dm))
                  - (set (keys (reflection_table dm))
                       - (set (initial_keys dm) \<union> {''inverse_scale_factor''})))
               - set aimless_added_columns"
    by (simp add: aimless_clean_reflection_table_def clean_with_keys)
qed

lemma example_run:
  "case XDS_Data_Manager_init example_collaborators example_reflections example_integrated
          example_options of
     Inr dm \<Rightarrow> expandable dm | Inl e \<Rightarrow> False"
  by code_simp

lemma colliding_run:
  "case XDS_Data_Manager_init example_collaborators colliding_reflections example_integrated
          example_options of
     Inr dm \<Rightarrow> expandable dm | Inl e \<Rightarrow> False"
  by code_simp


lemma example_side_columns:
  "\<forall>t. fst ` set (wilson_side_columns example_collaborators t) \<subseteq> set XDS_added_columns"
  by (simp add: example_collaborators_def XDS_added_columns_def)

theorem clean_reflection_table_round_trip_witness:
  "\<exists>dm0 dm1.
      XDS_Data_Manager_init example_collaborators example_reflections example_integrated
        example_options = Inr dm0
    \<and> expand_scales_to_all_reflections example_collaborators dm0 = Inr dm1
    \<and> set (keys (sorted_reflections (XDS_clean_reflection_table dm1)))
        = set (keys example_reflections) \<union> {''inverse_scale_factor''}"
proof -
  from example_run obtain dm0 where
    init: "XDS_Data_Manager_init example_collaborators example_reflections example_integrated
             example_options = Inr dm0"
    and "expandable dm0"
    by (auto split: sum.splits)
  with expand_succeeds obtain dm1 where
    expand: "expand_scales_to_all_reflections example_collaborators dm0 = Inr dm1"
    by blast
  have fresh: "set (keys example_reflections) \<inter> set XDS_added_columns = {}"
    by (simp add: keys_def example_reflections_def XDS_added_columns_def)
  from clean_reflection_table_round_trip [OF init expand fresh example_side_columns]
  have "set (keys (sorted_reflections (XDS_clean_reflection_table dm1)))
        = set (keys example_reflections) \<union> {''inverse_scale_factor''}"
    by (rule conjunct1)
  with init expand show ?thesis by blast
qed

text \<open>
  Claim C1 as stated: an input table that already has a column \<open>asu_miller_index\<close> loses
  it, because the name is in the cleaning list.
\<close>

theorem clean_reflection_table_deletes_input_column:
  "\<exists>dm0 dm1.
      XDS_Data_Manager_init example_collaborators colliding_reflections example_integrated
        example_options = Inr dm0
    \<and> expand_scales_to_all_reflections example_collaborators dm0 = Inr dm1
    \<and> ''asu_miller_index'' \<in> set (keys colliding_reflections)
    \<and> ''asu_miller_index'' \<notin> set (keys (sorted_reflections (XDS_clean_reflection_table dm1)))
    \<and> set (keys (sorted_reflections (XDS_clean_reflection_table dm1)))
        \<noteq> set (keys colliding_reflections) \<union> {''inverse_scale_factor''}"
proof -
  from colliding_run obtain dm0 where
    init: "XDS_Data_Manager_init example_collaborators colliding_reflections example_integrated
             example_options = Inr dm0"
    and "expandable dm0"
    by (auto split: sum.splits)
  with expand_succeeds obtain dm1 where
    expand: "expand_scales_to_all_reflections example_collaborators dm0 = Inr dm1"
    by blast
  have a: "''asu_miller_index'' \<in> set (keys colliding_reflections)"
    by (simp add: keys_def colliding_reflections_def)
  have "''asu_miller_index'' \<in> set XDS_added_columns"
    by (simp add: XDS_added_columns_def)
  then have b: "''asu_miller_index''
                  \<notin> set (keys (sorted_reflections (XDS_clean_reflection_table dm1)))"
    by (simp add: XDS_clean_reflection_table_def clean_with_keys)
  from a b have "set (keys (sorted_reflections (XDS_clean_reflection_table dm1)))
        \<noteq> set (keys colliding_reflections) \<union> {''inverse_scale_factor''}"
    by blast
  with init expand a b show ?thesis by blast
qed

subsection \<open>Rows of the tables of the data manager\<close>

lemma length_take_rows [simp]: "length (take_rows xs idx) = length idx"
  by (simp add: take_rows_def)

lemma set_take_rows: "set idx \<subseteq> {..< length xs} \<Longrightarrow> set (take_rows xs idx) \<subseteq> set xs"
  by (auto simp: take_rows_def)

lemma select_rows_take:
  "select_rows xs sel = select_rows (take (length sel) xs) (take (length xs) sel)"
proof -
  have "zip xs sel = zip (take (length sel) xs) (take (length xs) sel)"
  proof (induction xs arbitrary: sel)
    case Nil
    then show ?case by simp
  next
    case (Cons x xs)
    then show ?case by (cases sel) simp_all
  qed
  then show ?thesis by (simp add: select_rows_def)
qed

lemma select_rows_take_rows_min:
  "select_rows xs sel
     = take_rows xs (filter (\<lambda>i. sel ! i) [0 ..< min (length xs) (length sel)])"
proof -
  let ?m = "min (length xs) (length sel)"
  let ?xs = "take (length sel) xs" and ?sel = "take (length xs) sel"
  have l: "length ?sel = length ?xs" by (simp add: min.commute)
  have m: "length ?xs = ?m" by (simp add: min.commute)
  have "select_rows xs sel = take_rows ?xs (filter (\<lambda>i. ?sel ! i) [0 ..< ?m])"
    using select_rows_take [of xs sel] select_rows_take_rows [OF l] m by simp
  also have "filter (\<lambda>i. ?sel ! i) [0 ..< ?m] = filter (\<lambda>i. sel ! i) [0 ..< ?m]"
    by (intro filter_cong) auto
  also have "take_rows ?xs (filter (\<lambda>i. sel ! i) [0 ..< ?m])
           = take_rows xs (filter (\<lambda>i. sel ! i) [0 ..< ?m])"
    by (auto simp: take_rows_def)
  finally show ?thesis .
qed

lemma millers_length: "millers c = Inr v \<Longrightarrow> length v = length c"
proof (induction c arbitrary: v rule: millers.induct)
  case 1
  then show ?case by simp
next
  case (2 m cs)
  then show ?case by (auto simp: err_bind_def split: sum.splits)
qed simp_all

lemma get_millers_cong:
  "map_of t k = map_of t' k \<Longrightarrow> get_millers t k = get_millers t' k"
  by (simp add: get_millers_def getitem_def)

lemma get_millers_column:
  assumes "get_millers t k = Inr v"
  obtains c where "map_of t k = Some c" and "length v = length c"
  using assms millers_length
  by (auto simp: get_millers_def getitem_def err_bind_def split: option.splits)

lemma write_working_columns_cols:
  assumes "k \<notin> set XDS_working_columns"
  shows "map_of (write_working_columns rt xyz) k = map_of rt k"
  using assms
  by (simp add: write_working_columns_def Let_def map_of_setitem XDS_working_columns_def)

lemma select_optimal_intensities_cols:
  assumes "select_optimal_intensities opts t = Inr (opts', t')"
    and "k \<noteq> ''intensity''" and "k \<noteq> ''variance''"
  shows "map_of t' k = map_of t k"
proof -
  let ?o = "if opt_integration_method opts = ''combine''
            then opts \<lparr> opt_integration_method := ''prf'' \<rparr> else opts"
  let ?m = "opt_integration_method ?o"
  show ?thesis
  proof (cases "?m = ''sum'' \<or> ?m = ''prf''")
    case False
    with assms(1) have "t' = t"
      by (auto simp: select_optimal_intensities_def Let_def split: if_splits)
    then show ?thesis by simp
  next
    case True
    with assms(1) have
      "err_bind (get_doubles t (''intensity.'' @ ?m @ ''.value'')) (\<lambda>v.
       err_bind (get_doubles t ''lp'') (\<lambda>lp.
       err_bind (get_doubles t ''dqe'') (\<lambda>dqe.
       let t = setitem t ''intensity'' (map Double (flex_div (flex_mul v lp) dqe))
       in
       err_bind (get_doubles t (''intensity.'' @ ?m @ ''.variance'')) (\<lambda>var.
         Inr (?o,
              setitem t ''variance''
                (map Double (flex_div (flex_mul var (flex_mul lp lp))
                                      (flex_mul dqe dqe)))))))) = Inr (opts', t')"
      by (simp add: select_optimal_intensities_def Let_def split: if_splits)
    then obtain v lp dqe var where
      "t' = setitem (setitem t ''intensity'' (map Double (flex_div (flex_mul v lp) dqe)))
              ''variance'' (map Double (flex_div (flex_mul var (flex_mul lp lp))
                                      (flex_mul dqe dqe)))"
      by (auto simp: Let_def elim!: err_bind_Inr)
    with assms(2,3) show ?thesis by (simp add: map_of_setitem)
  qed
qed

lemma map_indices_to_asu_tables:
  assumes "map_indices_to_asu co t = Inr (t', s)"
  shows "\<exists>mi. get_millers t ''miller_index'' = Inr mi
      \<and> s = select_indices t' (sort_permutation co (map (map_to_asu co) mi))
      \<and> (\<forall>k. k \<noteq> ''asu_miller_index'' \<longrightarrow> map_of t' k = map_of t k)"
  using assms
  by (auto simp: map_indices_to_asu_def Let_def map_of_setitem elim!: err_bind_Inr)

lemma Data_Manager_init_columns:
  assumes init: "Data_Manager_init co reflections integrated opts = Inr dm"
  shows "\<exists>mi. get_millers (select reflections integrated) ''miller_index'' = Inr mi
           \<and> sorted_reflections dm
               = select_indices (reflection_table dm)
                   (sort_permutation co (map (map_to_asu co) mi))
           \<and> (\<forall>k. k \<notin> set XDS_working_columns \<longrightarrow>
                 map_of (reflection_table dm) k = map_of (select reflections integrated) k)"
proof -
  let ?rt0 = "select reflections integrated"
  from init obtain xyz o1 rt1 rt2 s where
    soi: "select_optimal_intensities opts (write_working_columns ?rt0 xyz) = Inr (o1, rt1)"
    and asu: "map_indices_to_asu co rt1 = Inr (rt2, s)"
    and dm: "reflection_table dm = rt2" "sorted_reflections dm = s"
    by (auto simp: Data_Manager_init_def Let_def elim!: err_bind_Inr)
  from map_indices_to_asu_tables [OF asu]
  obtain mi where mi: "get_millers rt1 ''miller_index'' = Inr mi"
    and s: "s = select_indices rt2 (sort_permutation co (map (map_to_asu co) mi))"
    and c2: "\<forall>k. k \<noteq> ''asu_miller_index'' \<longrightarrow> map_of rt2 k = map_of rt1 k"
    by blast
  have w: "''miller_index'' \<notin> set XDS_working_columns"
    by (simp add: XDS_working_columns_def)
  have c1: "map_of rt1 k = map_of ?rt0 k" if "k \<notin> set XDS_working_columns" for k
  proof -
    from that have "k \<noteq> ''intensity''" "k \<noteq> ''variance''"
      by (simp_all add: XDS_working_columns_def)
    from select_optimal_intensities_cols [OF soi this] write_working_columns_cols [OF that]
    show ?thesis by simp
  qed
  have "get_millers ?rt0 ''miller_index'' = Inr mi"
    using get_millers_cong [OF c1 [OF w]] mi by simp
  moreover have "map_of (reflection_table dm) k = map_of ?rt0 k"
    if "k \<notin> set XDS_working_columns" for k
  proof -
    from that have "k \<noteq> ''asu_miller_index''" by (simp add: XDS_working_columns_def)
    with c2 c1 [OF that] show ?thesis by (simp add: dm)
  qed
  ultimately show ?thesis using s dm by blast
qed


lemma fold_setitem_cols:
  "k \<notin> fst ` set cols \<Longrightarrow>
   map_of (fold (\<lambda>kc t. setitem t (fst kc) (snd kc)) cols t) k = map_of t k"
  by (induction cols arbitrary: t) (auto simp: map_of_setitem)

lemma XDS_initialise_scale_factors_cols:
  assumes "XDS_initialise_scale_factors opts t = Inr t'"
    and "k \<notin> set XDS_working_columns"
  shows "map_of t' k = map_of t k"
proof -
  from assms(2) have k: "k \<noteq> ''normalised_res_values''" "k \<noteq> ''normalised_time_values''"
    "k \<noteq> ''normalised_x_abs_values''" "k \<noteq> ''normalised_y_abs_values''"
    "k \<noteq> ''normalised_x_values''" "k \<noteq> ''normalised_y_values''"
    by (simp_all add: XDS_working_columns_def)
  from assms(1) obtain t1 t2 where d: "XDS_bin_reflections_decay opts t = Inr t1"
    and a: "XDS_bin_reflections_absorption opts t1 = Inr t2"
    and m: "XDS_bin_reflections_modulation opts t2 = Inr t'"
    by (auto simp: XDS_initialise_scale_factors_def elim!: err_bind_Inr)
  from d k have "map_of t1 k = map_of t k"
    by (auto simp: XDS_bin_reflections_decay_def map_of_setitem elim!: err_bind_Inr)
  moreover from a k have "map_of t2 k = map_of t1 k"
    by (auto simp: XDS_bin_reflections_absorption_def map_of_setitem elim!: err_bind_Inr)
  moreover from m k have "map_of t' k = map_of t2 k"
    by (auto simp: XDS_bin_reflections_modulation_def map_of_setitem elim!: err_bind_Inr)
  ultimately show ?thesis by simp
qed

lemma XDS_Data_Manager_init_columns:
  assumes init: "XDS_Data_Manager_init co reflections integrated opts = Inr dm"
    and side: "\<forall>t. fst ` set (wilson_side_columns co t) \<subseteq> set XDS_added_columns"
  shows "\<exists>mi. get_millers (select reflections integrated) ''miller_index'' = Inr mi
           \<and> reflections_for_scaling dm
               = Some (select (sorted_reflections dm)
                         (map (\<lambda>w. 0 < w) (get_weights co (sorted_reflections dm))))
           \<and> (\<forall>k. k \<notin> set XDS_working_columns \<union> set XDS_added_columns \<longrightarrow>
                 map_of (reflection_table dm) k = map_of (select reflections integrated) k
               \<and> map_of (sorted_reflections dm) k
                   = map_option
                       (\<lambda>c. take_rows c (sort_permutation co (map (map_to_asu co) mi)))
                       (map_of (select reflections integrated) k))"
proof -
  from init obtain dm0 t1 where
    base: "Data_Manager_init co reflections integrated opts = Inr dm0"
    and isf: "XDS_initialise_scale_factors (scaling_opts dm0) (sorted_reflections dm0) = Inr t1"
    and dm: "reflection_table dm = reflection_table dm0"
      "sorted_reflections dm
         = setitem (fold (\<lambda>kc t. setitem t (fst kc) (snd kc)) (wilson_side_columns co t1) t1)
             ''wilson_outlier_flag'' (wilson_flags co t1)"
      "reflections_for_scaling dm
         = Some (fst (extract_reflections_for_scaling co (sorted_reflections dm)))"
    by (auto simp: XDS_Data_Manager_init_def Let_def elim!: err_bind_Inr)
  from Data_Manager_init_columns [OF base] obtain mi where
    mi: "get_millers (select reflections integrated) ''miller_index'' = Inr mi"
    and s0: "sorted_reflections dm0
               = select_indices (reflection_table dm0)
                   (sort_permutation co (map (map_to_asu co) mi))"
    and c0: "\<forall>k. k \<notin> set XDS_working_columns \<longrightarrow>
                 map_of (reflection_table dm0) k = map_of (select reflections integrated) k"
    by blast
  have rfs: "reflections_for_scaling dm
               = Some (select (sorted_reflections dm)
                         (map (\<lambda>w. 0 < w) (get_weights co (sorted_reflections dm))))"
    by (simp add: dm(3) extract_reflections_for_scaling_def update_weights_for_scaling_def
        Let_def)
  have cols: "map_of (reflection_table dm) k = map_of (select reflections integrated) k
            \<and> map_of (sorted_reflections dm) k
                = map_option (\<lambda>c. take_rows c (sort_permutation co (map (map_to_asu co) mi)))
                    (map_of (select reflections integrated) k)"
    if k: "k \<notin> set XDS_working_columns \<union> set XDS_added_columns" for k
  proof -
    from k have w: "k \<notin> set XDS_working_columns" and a: "k \<notin> set XDS_added_columns"
      by simp_all
    from w have kw: "k \<noteq> ''wilson_outlier_flag''" by (simp add: XDS_working_columns_def)
    from a side have ks: "k \<notin> fst ` set (wilson_side_columns co t1)" by blast
    have "map_of (sorted_reflections dm) k = map_of t1 k"
      using kw fold_setitem_cols [OF ks] by (simp add: dm(2) map_of_setitem)
    also have "\<dots> = map_of (sorted_reflections dm0) k"
      by (rule XDS_initialise_scale_factors_cols [OF isf w])
    also have "\<dots> = map_option
                       (\<lambda>c. take_rows c (sort_permutation co (map (map_to_asu co) mi)))
                       (map_of (select reflections integrated) k)"
      using c0 w by (simp add: s0 map_of_select_indices)
    finally show ?thesis using c0 w by (simp add: dm(1))
  qed
  from mi rfs cols show ?thesis by blast
qed

text \<open>
  Claim C9.  When the input table has one entry per flag in every column and the sort
  permutation holds valid row numbers, a successfully constructed XDS data manager has,
  for every input column that the data manager does not overwrite: in
  \<open>reflection_table\<close> exactly the entries of the rows carrying the integrated flag, in
  order; in \<open>sorted_reflections\<close> and in \<open>reflections_for_scaling\<close> the entries at
  row numbers that all carry the flag, the same row numbers for every column.
\<close>

theorem only_integrated_rows:
  assumes init: "XDS_Data_Manager_init co reflections integrated opts = Inr dm"
    and rows: "\<forall>c \<in> snd ` set reflections. length c = length integrated"
    and perm: "\<forall>ms. set (sort_permutation co ms) \<subseteq> {..< length ms}"
    and side: "\<forall>t. fst ` set (wilson_side_columns co t) \<subseteq> set XDS_added_columns"
  shows "\<exists>idx_sorted idx_scaling rfs.
           reflections_for_scaling dm = Some rfs
         \<and> set idx_sorted \<subseteq> {i. i < length integrated \<and> integrated ! i}
         \<and> set idx_scaling \<subseteq> {i. i < length integrated \<and> integrated ! i}
         \<and> (\<forall>k c. map_of reflections k = Some c
                    \<and> k \<notin> set XDS_working_columns \<union> set XDS_added_columns \<longrightarrow>
                 map_of (reflection_table dm) k
                   = Some (take_rows c (filter (\<lambda>i. integrated ! i) [0 ..< length integrated]))
               \<and> map_of (sorted_reflections dm) k = Some (take_rows c idx_sorted)
               \<and> map_of rfs k = Some (take_rows c idx_scaling))"
proof -
  let ?n = "length integrated"
  let ?idx0 = "filter (\<lambda>i. integrated ! i) [0 ..< ?n]"
  let ?rt0 = "select reflections integrated"
  from XDS_Data_Manager_init_columns [OF init side] obtain mi where
    mi: "get_millers ?rt0 ''miller_index'' = Inr mi"
    and rfs: "reflections_for_scaling dm
               = Some (select (sorted_reflections dm)
                         (map (\<lambda>w. 0 < w) (get_weights co (sorted_reflections dm))))"
    and cols: "\<forall>k. k \<notin> set XDS_working_columns \<union> set XDS_added_columns \<longrightarrow>
                 map_of (reflection_table dm) k = map_of ?rt0 k
               \<and> map_of (sorted_reflections dm) k
                   = map_option
                       (\<lambda>c. take_rows c (sort_permutation co (map (map_to_asu co) mi)))
                       (map_of ?rt0 k)"
    by blast
  let ?p = "sort_permutation co (map (map_to_asu co) mi)"
  let ?sel = "map (\<lambda>w. 0 < w) (get_weights co (sorted_reflections dm))"
  let ?q = "filter (\<lambda>i. ?sel ! i) [0 ..< min (length ?p) (length ?sel)]"
  let ?is = "take_rows ?idx0 ?p"
  let ?ir = "take_rows ?is ?q"
  have rt0: "map_of ?rt0 k = Some (take_rows c ?idx0)" if "map_of reflections k = Some c" for k c
  proof -
    from that have "c \<in> snd ` set reflections" by (force dest: map_of_SomeD)
    with rows have "length integrated = length c" by auto
    from select_rows_take_rows [OF this] this that show ?thesis
      by (simp add: map_of_select)
  qed
  have lp: "set ?p \<subseteq> {..< length ?idx0}"
  proof -
    from mi obtain cm where cm: "map_of ?rt0 ''miller_index'' = Some cm"
      and l: "length mi = length cm"
      by (rule get_millers_column)
    from cm obtain c where "map_of reflections ''miller_index'' = Some c"
      by (auto simp: map_of_select)
    from rt0 [OF this] cm have "length cm = length ?idx0" by simp
    with l perm [rule_format, of "map (map_to_asu co) mi"] show ?thesis by simp
  qed
  have i0: "set ?idx0 \<subseteq> {i. i < ?n \<and> integrated ! i}" by auto
  have is0: "set ?is \<subseteq> set ?idx0"
    using lp by (rule set_take_rows)
  have lq: "set ?q \<subseteq> {..< length ?is}" by auto
  have ir: "set ?ir \<subseteq> set ?is"
    using lq by (rule set_take_rows)
  have main: "map_of (reflection_table dm) k = Some (take_rows c ?idx0)
            \<and> map_of (sorted_reflections dm) k = Some (take_rows c ?is)
            \<and> map_of (select (sorted_reflections dm) ?sel) k = Some (take_rows c ?ir)"
    if c: "map_of reflections k = Some c"
      and k: "k \<notin> set XDS_working_columns \<union> set XDS_added_columns" for k c
  proof -
    from cols k rt0 [OF c] have a: "map_of (reflection_table dm) k = Some (take_rows c ?idx0)"
      and "map_of (sorted_reflections dm) k = Some (take_rows (take_rows c ?idx0) ?p)"
      by simp_all
    with take_rows_take_rows [OF lp]
    have b: "map_of (sorted_reflections dm) k = Some (take_rows c ?is)" by simp
    have "select_rows (take_rows c ?is) ?sel = take_rows (take_rows c ?is) ?q"
      using select_rows_take_rows_min [of "take_rows c ?is" ?sel] by simp
    also have "\<dots> = take_rows c ?ir"
      by (rule take_rows_take_rows [OF lq])
    finally have "map_of (select (sorted_reflections dm) ?sel) k = Some (take_rows c ?ir)"
      using b by (simp add: map_of_select)
    with a b show ?thesis by blast
  qed
  have "set ?is \<subseteq> {i. i < ?n \<and> integrated ! i}" using is0 i0 by blast
  moreover have "set ?ir \<subseteq> {i. i < ?n \<and> integrated ! i}" using ir is0 i0 by blast
  ultimately show ?thesis using rfs main by blast
qed


lemma example_sort_permutation:
  "\<forall>ms. set (sort_permutation example_collaborators ms) \<subseteq> {..< length ms}"
  by (auto simp: example_collaborators_def)

theorem only_integrated_rows_witness:
  "\<exists>dm idx_sorted idx_scaling rfs.
      XDS_Data_Manager_init example_collaborators example_reflections example_integrated
        example_options = Inr dm
    \<and> reflections_for_scaling dm = Some rfs
    \<and> set idx_sorted \<subseteq> {i. i < length example_integrated \<and> example_integrated ! i}
    \<and> set idx_scaling \<subseteq> {i. i < length example_integrated \<and> example_integrated ! i}
    \<and> map_of (reflection_table dm) ''d'' = Some [Double 2, Double (4 / 5), Double 2]
    \<and> map_of (sorted_reflections dm) ''d''
        = Some (take_rows [Double 2, Double (4 / 5), Double 2, Double 1] idx_sorted)
    \<and> map_of rfs ''d''
        = Some (take_rows [Double 2, Double (4 / 5), Double 2, Double 1] idx_scaling)"
proof -
  from example_run obtain dm where
    init: "XDS_Data_Manager_init example_collaborators example_reflections example_integrated
             example_options = Inr dm"
    by (auto split: sum.splits)
  have rows: "\<forall>c \<in> snd ` set example_reflections. length c = length example_integrated"
    by (simp add: example_reflections_def example_integrated_def)
  have d: "map_of example_reflections ''d''
             = Some [Double 2, Double (4 / 5), Double 2, Double 1]"
    by (simp add: example_reflections_def)
  have k: "''d'' \<notin> set XDS_working_columns \<union> set XDS_added_columns"
    by (simp add: XDS_working_columns_def XDS_added_columns_def)
  have f: "take_rows [Double 2, Double (4 / 5), Double 2, Double 1]
             (filter (\<lambda>i. example_integrated ! i) [0 ..< length example_integrated])
           = [Double 2, Double (4 / 5), Double 2]"
    by (simp add: example_integrated_def take_rows_def upt_rec)
  from only_integrated_rows [OF init rows example_sort_permutation example_side_columns]
  obtain idx_sorted idx_scaling rfs where
    "reflections_for_scaling dm = Some rfs"
    "set idx_sorted \<subseteq> {i. i < length example_integrated \<and> example_integrated ! i}"
    "set idx_scaling \<subseteq> {i. i < length example_integrated \<and> example_integrated ! i}"
    and c: "\<forall>k c. map_of example_reflections k = Some c
                    \<and> k \<notin> set XDS_working_columns \<union> set XDS_added_columns \<longrightarrow>
                 map_of (reflection_table dm) k
                   = Some (take_rows c (filter (\<lambda>i. example_integrated ! i)
                                          [0 ..< length example_integrated]))
               \<and> map_of (sorted_reflections dm) k = Some (take_rows c idx_sorted)
               \<and> map_of rfs k = Some (take_rows c idx_scaling)"
    by blast
  moreover from c d k have
    "map_of (reflection_table dm) ''d''
       = Some (take_rows [Double 2, Double (4 / 5), Double 2, Double 1]
                 (filter (\<lambda>i. example_integrated ! i) [0 ..< length example_integrated]))"
    "map_of (sorted_reflections dm) ''d''
        = Some (take_rows [Double 2, Double (4 / 5), Double 2, Double 1] idx_sorted)"
    "map_of rfs ''d''
        = Some (take_rows [Double 2, Double (4 / 5), Double 2, Double 1] idx_scaling)"
    by blast+
  ultimately show ?thesis using init f by (auto simp only:)
qed

subsection \<open>update_for_minimisation\<close>

lemma setitem_idem: "setitem (setitem t k c) k c' = setitem t k c'"
  by (simp add: setitem_def)

text \<open>
  Claim C3.  Whenever \<open>update_for_minimisation\<close> returns for a state and a parameter
  vector, a second call with the same vector returns the very state the first call
  produced: the inverse scale factors, the scale factors and Ih values of the Ih table
  and the residuals are the same after two calls as after one.
\<close>

theorem update_for_minimisation_idempotent:
  assumes "update_for_minimisation cs st parameters = Inr st1"
  shows "update_for_minimisation cs st1 parameters = Inr st1
       \<and> (\<forall>st2. update_for_minimisation cs st1 parameters = Inr st2 \<longrightarrow>
             getitem (ms_reflections st2) ''inverse_scale_factor''
               = getitem (ms_reflections st1) ''inverse_scale_factor''
           \<and> ms_Ih_scales st2 = ms_Ih_scales st1
           \<and> ms_Ih_values st2 = ms_Ih_values st1
           \<and> residuals st2 = residuals st1)"
proof -
  let ?g = "component_scales cs (ms_active st) parameters"
  let ?scales = "if ms_parameterization st = ''log''
                 then map exp (flex_add ?g (ms_constant st))
                 else flex_mul ?g (ms_constant st)"
  from assms obtain asu I where
    asu: "get_millers (ms_reflections st) ''asu_miller_index'' = Inr asu"
    and I: "get_doubles (ms_reflections st) ''intensity'' = Inr I"
    and st1: "st1 = st \<lparr> ms_reflections :=
                          setitem (ms_reflections st) ''inverse_scale_factor''
                            (map Double ?scales),
                        ms_parameters :=
                          AList.update (ms_active st) parameters (ms_parameters st),
                        ms_active_derivatives :=
                          map2 (\<lambda>row s. map (\<lambda>dv. dv * s) row)
                            (component_derivatives cs (ms_active st) parameters)
                            (if ms_parameterization st = ''log'' then ?scales
                             else ms_constant st),
                        ms_Ih_scales := ?scales,
                        ms_Ih_values := calc_Ih asu ?scales I (ms_weights st) \<rparr>"
    by (auto simp: update_for_minimisation_def get_basis_function_def Let_def
          get_doubles_setitem_other get_millers_setitem_other
          elim!: err_bind_Inr)
  have "update_for_minimisation cs st1 parameters = Inr st1"
    using asu I
    by (simp add: st1 update_for_minimisation_def get_basis_function_def Let_def
        get_doubles_setitem_other get_millers_setitem_other setitem_idem err_bind_def)
  then show ?thesis by simp
qed


theorem update_for_minimisation_idempotent_witness:
  "update_for_minimisation
     \<lparr> component_scales = (\<lambda>name p. [hd p, hd p]),
       component_derivatives = (\<lambda>name p. [[1], [1]]) \<rparr>
     \<lparr> ms_reflections =
         [(''asu_miller_index'', [Miller (1, 0, 0), Miller (1, 0, 0)]),
          (''intensity'', [Double 75, Double 100]),
          (''inverse_scale_factor'', [Double 1, Double 1])],
       ms_weights = [1 / 25, 1 / 100],
       ms_parameters = [(''g_decay'', [1])],
       ms_active = ''g_decay'',
       ms_constant = [2, 2],
       ms_parameterization = ''standard'',
       ms_active_derivatives = [],
       ms_Ih_scales = [1, 1],
       ms_Ih_values = [0, 0] \<rparr>
     [4]
   = Inr \<lparr> ms_reflections =
             [(''asu_miller_index'', [Miller (1, 0, 0), Miller (1, 0, 0)]),
              (''intensity'', [Double 75, Double 100]),
              (''inverse_scale_factor'', [Double 8, Double 8])],
           ms_weights = [1 / 25, 1 / 100],
           ms_parameters = [(''g_decay'', [4])],
           ms_active = ''g_decay'',
           ms_constant = [2, 2],
           ms_parameterization = ''standard'',
           ms_active_derivatives = [[2], [2]],
           ms_Ih_scales = [8, 8],
           ms_Ih_values = [10, 10] \<rparr>
   \<and> update_for_minimisation
     \<lparr> component_scales = (\<lambda>name p. [hd p, hd p]),
       component_derivatives = (\<lambda>name p. [[1], [1]]) \<rparr>
     \<lparr> ms_reflections =
         [(''asu_miller_index'', [Miller (1, 0, 0), Miller (1, 0, 0)]),
          (''intensity'', [Double 75, Double 100]),
          (''inverse_scale_factor'', [Double 8, Double 8])],
       ms_weights = [1 / 25, 1 / 100],
       ms_parameters = [(''g_decay'', [4])],
       ms_active = ''g_decay'',
       ms_constant = [2, 2],
       ms_parameterization = ''standard'',
       ms_active_derivatives = [[2], [2]],
       ms_Ih_scales = [8, 8],
       ms_Ih_values = [10, 10] \<rparr>
     [4]
   = Inr \<lparr> ms_reflections =
             [(''asu_miller_index'', [Miller (1, 0, 0), Miller (1, 0, 0)]),
              (''intensity'', [Double 75, Double 100]),
              (''inverse_scale_factor'', [Double 8, Double 8])],
           ms_weights = [1 / 25, 1 / 100],
           ms_parameters = [(''g_decay'', [4])],
           ms_active = ''g_decay'',
           ms_constant = [2, 2],
           ms_parameterization = ''standard'',
           ms_active_derivatives = [[2], [2]],
           ms_Ih_scales = [8, 8],
           ms_Ih_values = [10, 10] \<rparr>"
proof -
  let ?cs = "\<lparr> component_scales = (\<lambda>name p. [hd p, hd p]),
       component_derivatives = (\<lambda>name p. [[1 :: real], [1]]) \<rparr>"
  let ?st = "\<lparr> ms_reflections =
         [(''asu_miller_index'', [Miller (1, 0, 0), Miller (1, 0, 0)]),
          (''intensity'', [Double 75, Double 100]),
          (''inverse_scale_factor'', [Double 1, Double 1])],
       ms_weights = [1 / 25, 1 / 100],
       ms_parameters = [(''g_decay'', [1])],
       ms_active = ''g_decay'',
       ms_constant = [2, 2],
       ms_parameterization = ''standard'',
       ms_active_derivatives = [],
       ms_Ih_scales = [1, 1],
       ms_Ih_values = [0, 0] \<rparr>"
  let ?st1 = "\<lparr> ms_reflections =
             [(''asu_miller_index'', [Miller (1, 0, 0), Miller (1, 0, 0)]),
              (''intensity'', [Double 75, Double 100]),
              (''inverse_scale_factor'', [Double 8, Double 8])],
           ms_weights = [1 / 25, 1 / 100],
           ms_parameters = [(''g_decay'', [4])],
           ms_active = ''g_decay'',
           ms_constant = [2, 2],
           ms_parameterization = ''standard'',
           ms_active_derivatives = [[2], [2]],
           ms_Ih_scales = [8, 8],
           ms_Ih_values = [10, 10] \<rparr>"
  have a: "update_for_minimisation ?cs ?st [4] = Inr ?st1"
    by (simp add: update_for_minimisation_def get_basis_function_def Let_def flex_mul_def
        setitem_def get_doubles_def get_millers_def getitem_def err_bind_def
        calc_Ih_def calc_Ih_rows_def Ih_of_group_def)
  from update_for_minimisation_idempotent [OF a] a show ?thesis
    by (simp only: simp_thms)
qed

subsection \<open>Composition of the component scales\<close>

lemma filter_key_distinct:
  "distinct (map fst gp) \<Longrightarrow> map_of gp k = Some c \<Longrightarrow>
   filter (\<lambda>(p_type, scalefactor). k = p_type) gp = [(k, c)]"
proof (induction gp)
  case Nil
  then show ?case by simp
next
  case (Cons a gp)
  obtain k' c' where a: "a = (k', c')" by (cases a)
  show ?case
  proof (cases "k = k'")
    case True
    with Cons.prems a have "c' = c" and "k \<notin> fst ` set gp" by auto
    then have "filter (\<lambda>(p_type, scalefactor). k = p_type) gp = []"
      by (force simp: filter_empty_conv)
    with True a \<open>c' = c\<close> show ?thesis by simp
  next
    case False
    with Cons a show ?thesis by simp
  qed
qed

lemma set_up_minimisation_active:
  assumes d: "distinct (map fst gp)" and c: "map_of gp param_name = Some c"
  shows "\<exists>s. set_up_minimisation gp parameterization previous param_name = Inr s
           \<and> active_x s = get_scale_factors c
           \<and> n_active_params s = length (get_scale_factors c)
           \<and> active_parameterisation s = param_name
           \<and> constant_g_values s =
               (if parameterization = ''standard''
                then Some (np_prod_axis0 (collect_constant_g_values gp param_name))
                else if parameterization = ''log''
                then Some (np_sum_axis0 (collect_constant_g_values gp param_name))
                else previous)"
  using filter_key_distinct [OF d c]
  by (simp add: set_up_minimisation_def Let_def)

lemma collect_constant_g_values_nth:
  "map (\<lambda>r. r ! i) (collect_constant_g_values gp param_name)
     = map (\<lambda>kc. get_scales_of_reflections (snd kc) ! i)
         (filter (\<lambda>kc. fst kc \<noteq> param_name) gp)"
proof -
  have "filter (\<lambda>(p_type, scalefactor). param_name \<noteq> p_type) gp
      = filter (\<lambda>kc. fst kc \<noteq> param_name) gp"
    by (intro filter_cong) auto
  then show ?thesis
    by (simp add: collect_constant_g_values_def comp_def split_def)
qed

lemma expand_scales_to_all_reflections_column:
  assumes expand: "expand_scales_to_all_reflections co dm = Inr dm'"
    and nx: "get_doubles (sorted_reflections dm) ''normalised_x_values'' = Inr nx"
    and ny: "get_doubles (sorted_reflections dm) ''normalised_y_values'' = Inr ny"
    and nr: "get_doubles (sorted_reflections dm) ''normalised_res_values'' = Inr nr"
    and nt: "get_doubles (sorted_reflections dm) ''normalised_time_values'' = Inr nt"
    and nxa: "get_doubles (sorted_reflections dm) ''normalised_x_abs_values'' = Inr nxa"
    and nya: "get_doubles (sorted_reflections dm) ''normalised_y_abs_values'' = Inr nya"
  shows "get_doubles (sorted_reflections dm') ''inverse_scale_factor''
           = Inr (expand_inverse_scale_factor (opt_parameterization (scaling_opts dm))
                    (calculate_smooth_scales co ''g_modulation'' [nx, ny])
                    (calculate_smooth_scales co ''g_decay'' [nr, nt])
                    (calculate_smooth_scales co ''g_absorption'' [nxa, nya, nt]))"
proof -
  let ?isf = "expand_inverse_scale_factor (opt_parameterization (scaling_opts dm))
                    (calculate_smooth_scales co ''g_modulation'' [nx, ny])
                    (calculate_smooth_scales co ''g_decay'' [nr, nt])
                    (calculate_smooth_scales co ''g_absorption'' [nxa, nya, nt])"
  let ?s = "setitem (sorted_reflections dm) ''inverse_scale_factor'' (map Double ?isf)"
  from expand nx ny nr nt nxa nya obtain Ih where
    "sorted_reflections dm' = setitem ?s ''Ih_values'' (map Double Ih)"
    by (auto simp: expand_scales_to_all_reflections_def Let_def err_bind_def
          split: sum.splits)
  then show ?thesis
    by (simp add: get_doubles_setitem_other)
qed

text \<open>
  Claim C2.  Whenever \<open>expand_scales_to_all_reflections\<close> returns, the
  \<open>inverse_scale_factor\<close> column of the sorted reflections it leaves behind holds, for
  every reflection, the product of the smooth scales of \<open>g_modulation\<close>, \<open>g_decay\<close> and
  \<open>g_absorption\<close> (each evaluated at the normalised coordinates read from the sorted
  reflections) when the parameterization option is \<open>'standard'\<close>, and the exponential of
  their sum when it is \<open>'log'\<close>.  \<open>set_up_minimisation\<close> called with the name of one of
  the components returns that component's scale factors as the active parameters and
  stores in \<open>constant_g_values\<close>, for every reflection, the product (\<open>'standard'\<close>) or
  the sum (\<open>'log'\<close>) of the per-reflection values of exactly the components whose name
  differs from the active one.
\<close>

theorem parameterization_composition:
  assumes expand: "expand_scales_to_all_reflections co dm = Inr dm'"
    and nx: "get_doubles (sorted_reflections dm) ''normalised_x_values'' = Inr nx"
    and ny: "get_doubles (sorted_reflections dm) ''normalised_y_values'' = Inr ny"
    and nr: "get_doubles (sorted_reflections dm) ''normalised_res_values'' = Inr nr"
    and nt: "get_doubles (sorted_reflections dm) ''normalised_time_values'' = Inr nt"
    and nxa: "get_doubles (sorted_reflections dm) ''normalised_x_abs_values'' = Inr nxa"
    and nya: "get_doubles (sorted_reflections dm) ''normalised_y_abs_values'' = Inr nya"
    and gm: "length (calculate_smooth_scales co ''g_modulation'' [nx, ny]) = n"
    and gd: "length (calculate_smooth_scales co ''g_decay'' [nr, nt]) = n"
    and ga: "length (calculate_smooth_scales co ''g_absorption'' [nxa, nya, nt]) = n"
    and keys: "distinct (map fst g_parameterisation)" "1 < length g_parameterisation"
    and active: "map_of g_parameterisation param_name = Some c"
    and sizes: "\<forall>c \<in> snd ` set g_parameterisation. length (get_scales_of_reflections c) = m"
  shows "(\<exists>isf. get_doubles (sorted_reflections dm') ''inverse_scale_factor'' = Inr isf
            \<and> length isf = n
            \<and> (\<forall>i < n.
                  (opt_parameterization (scaling_opts dm) = ''standard'' \<longrightarrow>
                     isf ! i = calculate_smooth_scales co ''g_modulation'' [nx, ny] ! i
                               * calculate_smooth_scales co ''g_decay'' [nr, nt] ! i
                               * calculate_smooth_scales co ''g_absorption'' [nxa, nya, nt] ! i)
                \<and> (opt_parameterization (scaling_opts dm) = ''log'' \<longrightarrow>
                     isf ! i = exp (calculate_smooth_scales co ''g_modulation'' [nx, ny] ! i
                                  + calculate_smooth_scales co ''g_decay'' [nr, nt] ! i
                                  + calculate_smooth_scales co ''g_absorption'' [nxa, nya, nt] ! i))))
     \<and> (\<exists>s v. set_up_minimisation g_parameterisation ''standard'' previous param_name = Inr s
             \<and> active_x s = get_scale_factors c
             \<and> active_parameterisation s = param_name
             \<and> constant_g_values s = Some v \<and> length v = m
             \<and> (\<forall>i < m. v ! i = prod_list (map (\<lambda>kc. get_scales_of_reflections (snd kc) ! i)
                                  (filter (\<lambda>kc. fst kc \<noteq> param_name) g_parameterisation))))
     \<and> (\<exists>s v. set_up_minimisation g_parameterisation ''log'' previous param_name = Inr s
             \<and> active_x s = get_scale_factors c
             \<and> active_parameterisation s = param_name
             \<and> constant_g_values s = Some v \<and> length v = m
             \<and> (\<forall>i < m. v ! i = sum_list (map (\<lambda>kc. get_scales_of_reflections (snd kc) ! i)
                                  (filter (\<lambda>kc. fst kc \<noteq> param_name) g_parameterisation))))"
proof -
  let ?gm = "calculate_smooth_scales co ''g_modulation'' [nx, ny]"
  let ?gd = "calculate_smooth_scales co ''g_decay'' [nr, nt]"
  let ?ga = "calculate_smooth_scales co ''g_absorption'' [nxa, nya, nt]"
  let ?p = "opt_parameterization (scaling_opts dm)"
  let ?isf = "expand_inverse_scale_factor ?p ?gm ?gd ?ga"
  let ?rows = "collect_constant_g_values g_parameterisation param_name"
  have col: "get_doubles (sorted_reflections dm') ''inverse_scale_factor'' = Inr ?isf"
    by (rule expand_scales_to_all_reflections_column [OF expand nx ny nr nt nxa nya])
  have len: "length ?isf = n"
    by (rule expand_inverse_scale_factor_length [OF gm gd ga])
  have val: "(?p = ''standard'' \<longrightarrow> ?isf ! i = ?gm ! i * ?gd ! i * ?ga ! i)
           \<and> (?p = ''log'' \<longrightarrow> ?isf ! i = exp (?gm ! i + ?gd ! i + ?ga ! i))"
    if "i < n" for i
    using expand_inverse_scale_factor_nth [OF gm gd ga that, of ?p] by auto
  from col len val have A: "\<exists>isf. get_doubles (sorted_reflections dm') ''inverse_scale_factor'' = Inr isf
            \<and> length isf = n
            \<and> (\<forall>i < n.
                  (?p = ''standard'' \<longrightarrow> isf ! i = ?gm ! i * ?gd ! i * ?ga ! i)
                \<and> (?p = ''log'' \<longrightarrow> isf ! i = exp (?gm ! i + ?gd ! i + ?ga ! i)))"
    by blast
  note ne = collect_constant_g_values_nonempty [OF keys, of param_name]
  note ln = collect_constant_g_values_lengths [OF sizes, of param_name]
  from set_up_minimisation_active [OF keys(1) active, of "''standard''" previous]
  obtain s where s: "set_up_minimisation g_parameterisation ''standard'' previous param_name = Inr s"
    "active_x s = get_scale_factors c" "active_parameterisation s = param_name"
    "constant_g_values s = Some (np_prod_axis0 ?rows)"
    by auto
  have B: "\<exists>s v. set_up_minimisation g_parameterisation ''standard'' previous param_name = Inr s
             \<and> active_x s = get_scale_factors c
             \<and> active_parameterisation s = param_name
             \<and> constant_g_values s = Some v \<and> length v = m
             \<and> (\<forall>i < m. v ! i = prod_list (map (\<lambda>kc. get_scales_of_reflections (snd kc) ! i)
                                  (filter (\<lambda>kc. fst kc \<noteq> param_name) g_parameterisation)))"
    using s length_np_prod_axis0 [OF ne ln] nth_np_prod_axis0 [OF ne ln]
    by (simp add: collect_constant_g_values_nth)
  from set_up_minimisation_active [OF keys(1) active, of "''log''" previous]
  obtain t where t: "set_up_minimisation g_parameterisation ''log'' previous param_name = Inr t"
    "active_x t = get_scale_factors c" "active_parameterisation t = param_name"
    "constant_g_values t = Some (np_sum_axis0 ?rows)"
    by auto
  have C: "\<exists>s v. set_up_minimisation g_parameterisation ''log'' previous param_name = Inr s
             \<and> active_x s = get_scale_factors c
             \<and> active_parameterisation s = param_name
             \<and> constant_g_values s = Some v \<and> length v = m
             \<and> (\<forall>i < m. v ! i = sum_list (map (\<lambda>kc. get_scales_of_reflections (snd kc) ! i)
                                  (filter (\<lambda>kc. fst kc \<noteq> param_name) g_parameterisation)))"
    using t length_np_sum_axis0 [OF ne ln] nth_np_sum_axis0 [OF ne ln]
    by (simp add: collect_constant_g_values_nth)
  from A B C show ?thesis by (intro conjI)
qed

lemma example_sorted_state_expands:
  "\<exists>dm'. expand_scales_to_all_reflections example_collaborators example_sorted_state = Inr dm'"
proof -
  have "expandable example_sorted_state" by code_simp
  then show ?thesis by (rule expand_succeeds)
qed

theorem parameterization_composition_witness:
  "\<exists>dm' isf.
      expand_scales_to_all_reflections example_collaborators example_sorted_state = Inr dm'
    \<and> opt_parameterization (scaling_opts example_sorted_state) = ''standard''
    \<and> calculate_smooth_scales example_collaborators ''g_modulation'' [[1 / 2, 1], [1, 3 / 2]]
        = [2, 2]
    \<and> get_doubles (sorted_reflections dm') ''inverse_scale_factor'' = Inr isf
    \<and> length isf = 2 \<and> isf ! 0 = 2 * 2 * 2 \<and> isf ! 1 = 2 * 2 * 2
    \<and> set_up_minimisation
        [(''g_absorption'', \<lparr> get_scale_factors = [1], get_scales_of_reflections = [2, 3] \<rparr>),
         (''g_modulation'', \<lparr> get_scale_factors = [1, 1], get_scales_of_reflections = [5, 7] \<rparr>),
         (''g_decay'', \<lparr> get_scale_factors = [4], get_scales_of_reflections = [11, 13] \<rparr>)]
        ''standard'' None ''g_decay''
      = Inr \<lparr> active_x = [4], n_active_params = 1, active_parameterisation = ''g_decay'',
              constant_g_values = Some [2 * 5, 3 * 7] \<rparr>
    \<and> set_up_minimisation
        [(''g_absorption'', \<lparr> get_scale_factors = [1], get_scales_of_reflections = [2, 3] \<rparr>),
         (''g_modulation'', \<lparr> get_scale_factors = [1, 1], get_scales_of_reflections = [5, 7] \<rparr>),
         (''g_decay'', \<lparr> get_scale_factors = [4], get_scales_of_reflections = [11, 13] \<rparr>)]
        ''log'' None ''g_decay''
      = Inr \<lparr> active_x = [4], n_active_params = 1, active_parameterisation = ''g_decay'',
              constant_g_values = Some [2 + 5, 3 + 7] \<rparr>"
proof -
  let ?co = example_collaborators and ?dm = example_sorted_state
  let ?gp = "[(''g_absorption'', \<lparr> get_scale_factors = [1], get_scales_of_reflections = [2, 3 :: real] \<rparr>),
         (''g_modulation'', \<lparr> get_scale_factors = [1, 1], get_scales_of_reflections = [5, 7] \<rparr>),
         (''g_decay'', \<lparr> get_scale_factors = [4 :: real], get_scales_of_reflections = [11, 13] \<rparr>)]"
  from example_sorted_state_expands obtain dm' where
    expand: "expand_scales_to_all_reflections ?co ?dm = Inr dm'" by blast
  have nx: "get_doubles (sorted_reflections ?dm) ''normalised_x_values'' = Inr [1 / 2, 1]"
    and ny: "get_doubles (sorted_reflections ?dm) ''normalised_y_values'' = Inr [1, 3 / 2]"
    and nr: "get_doubles (sorted_reflections ?dm) ''normalised_res_values'' = Inr [1 / 2, 3 / 2]"
    and nt: "get_doubles (sorted_reflections ?dm) ''normalised_time_values'' = Inr [1 / 4, 5 / 4]"
    and nxa: "get_doubles (sorted_reflections ?dm) ''normalised_x_abs_values'' = Inr [1, 3]"
    and nya: "get_doubles (sorted_reflections ?dm) ''normalised_y_abs_values'' = Inr [2, 2]"
    by (simp_all add: example_sorted_state_def get_doubles_def getitem_def err_bind_def)
  have gm: "calculate_smooth_scales ?co ''g_modulation'' [[1 / 2, 1], [1, 3 / 2]] = [2, 2]"
    and gd: "calculate_smooth_scales ?co ''g_decay'' [[1 / 2, 3 / 2], [1 / 4, 5 / 4]] = [2, 2]"
    and ga: "calculate_smooth_scales ?co ''g_absorption'' [[1, 3], [2, 2], [1 / 4, 5 / 4]]
               = [2, 2]"
    by (simp_all add: example_collaborators_def)
  have lm: "length (calculate_smooth_scales ?co ''g_modulation'' [[1 / 2, 1], [1, 3 / 2]]) = 2"
    and ld: "length (calculate_smooth_scales ?co ''g_decay'' [[1 / 2, 3 / 2], [1 / 4, 5 / 4]]) = 2"
    and la: "length (calculate_smooth_scales ?co ''g_absorption''
                       [[1, 3], [2, 2], [1 / 4, 5 / 4]]) = 2"
    by (simp_all add: gm gd ga)
  have p: "opt_parameterization (scaling_opts ?dm) = ''standard''"
    by (simp add: example_sorted_state_def example_options_def)
  have keys: "distinct (map fst ?gp)" "1 < length ?gp" by simp_all
  have active: "map_of ?gp ''g_decay''
                  = Some \<lparr> get_scale_factors = [4], get_scales_of_reflections = [11, 13] \<rparr>"
    by simp
  have sizes: "\<forall>c \<in> snd ` set ?gp. length (get_scales_of_reflections c) = 2" by simp
  from parameterization_composition
         [OF expand nx ny nr nt nxa nya lm ld la keys active sizes, of None]
  obtain isf where
    "get_doubles (sorted_reflections dm') ''inverse_scale_factor'' = Inr isf"
    "length isf = 2"
    and v: "\<forall>i < 2. (opt_parameterization (scaling_opts ?dm) = ''standard'' \<longrightarrow>
          isf ! i = calculate_smooth_scales ?co ''g_modulation'' [[1 / 2, 1], [1, 3 / 2]] ! i
                  * calculate_smooth_scales ?co ''g_decay'' [[1 / 2, 3 / 2], [1 / 4, 5 / 4]] ! i
                  * calculate_smooth_scales ?co ''g_absorption''
                      [[1, 3], [2, 2], [1 / 4, 5 / 4]] ! i)"
    by blast
  moreover from v p have "isf ! 0 = 2 * 2 * 2" "isf ! 1 = 2 * 2 * 2"
    by (simp_all add: gm gd ga)
  moreover have "set_up_minimisation ?gp ''standard'' None ''g_decay''
      = Inr \<lparr> active_x = [4], n_active_params = 1, active_parameterisation = ''g_decay'',
              constant_g_values = Some [2 * 5, 3 * 7] \<rparr>"
    by (simp add: set_up_minimisation_def collect_constant_g_values_def Let_def)
  moreover have "set_up_minimisation ?gp ''log'' None ''g_decay''
      = Inr \<lparr> active_x = [4], n_active_params = 1, active_parameterisation = ''g_decay'',
              constant_g_values = Some [2 + 5, 3 + 7] \<rparr>"
    by (simp add: set_up_minimisation_def collect_constant_g_values_def Let_def)
  ultimately show ?thesis using expand p gm by blast
qed

end
